theory Spec2Isabelle
  imports Main
begin

section \<open>Python values shared by the models\<close>

text \<open>
  Strings are byte lists, so the string functions below are the ASCII part of their
  Python counterparts. Python's unbounded \<open>int\<close> is \<open>int\<close>.
\<close>

subsection \<open>\<open>str(n)\<close> for an integer\<close>

definition digit_char :: "nat \<Rightarrow> char" where
  "digit_char d = char_of (48 + d)"

fun digits :: "nat \<Rightarrow> string" where
  "digits n = (if n < 10 then [digit_char n] else digits (n div 10) @ [digit_char (n mod 10)])"

declare digits.simps [simp del]

definition str_int :: "int \<Rightarrow> string" where
  "str_int i = (if i < 0 then CHR ''-'' # digits (nat (- i)) else digits (nat i))"

subsection \<open>\<open>int(s)\<close> for a string\<close>

text \<open>
  Python strips surrounding whitespace, reads an optional sign and then decimal digits,
  where a single underscore may stand between two digits. \<open>None\<close> is \<open>ValueError\<close>.
\<close>

definition is_digit :: "char \<Rightarrow> bool" where
  "is_digit c = (48 \<le> (of_char c :: nat) \<and> (of_char c :: nat) \<le> 57)"

definition digit_val :: "char \<Rightarrow> nat" where
  "digit_val c = of_char c - 48"

definition is_space :: "char \<Rightarrow> bool" where
  "is_space c = ((of_char c :: nat) \<in> {9, 10, 11, 12, 13, 28, 29, 30, 31, 32})"

definition strip :: "string \<Rightarrow> string" where
  "strip s = rev (dropWhile is_space (rev (dropWhile is_space s)))"

fun int_digits :: "nat \<Rightarrow> string \<Rightarrow> nat option" where
  "int_digits acc [] = Some acc"
| "int_digits acc [c] = (if is_digit c then Some (10 * acc + digit_val c) else None)"
| "int_digits acc (c # d # ds) =
     (if is_digit c then int_digits (10 * acc + digit_val c) (d # ds)
      else if c = CHR ''_'' \<and> is_digit d then int_digits (10 * acc + digit_val d) ds
      else None)"

definition parse_digits :: "string \<Rightarrow> nat option" where
  "parse_digits s =
     (case s of [] \<Rightarrow> None | c # cs \<Rightarrow> if is_digit c then int_digits (digit_val c) cs else None)"

definition py_int :: "string \<Rightarrow> int option" where
  "py_int s =
     (case strip s of
        [] \<Rightarrow> None
      | c # cs \<Rightarrow>
          if c = CHR ''-'' then map_option (\<lambda>n. - int n) (parse_digits cs)
          else if c = CHR ''+'' then map_option int (parse_digits cs)
          else map_option int (parse_digits (c # cs)))"

subsection \<open>\<open>s.lower()\<close>\<close>

definition lower_char :: "char \<Rightarrow> char" where
  "lower_char c =
     (if 65 \<le> (of_char c :: nat) \<and> (of_char c :: nat) \<le> 90 then char_of ((of_char c :: nat) + 32) else c)"

definition lower :: "string \<Rightarrow> string" where
  "lower s = map lower_char s"

section \<open>Rate limiting: \<open>RateLimitingMiddleware\<close> (middlewares/security.py)\<close>

subsection \<open>The Redis commands the middleware issues\<close>

text \<open>
  The Redis server is not part of the repository. A sorted set is a list of
  (member, score) pairs with distinct members, and a key that holds no member does not
  exist; \<open>ttl\<close> holds, per key, the second at which the key expires. The server's
  clock is read in whole seconds, as \<open>current_time\<close> is.
\<close>

type_synonym zset = "(string \<times> int) list"

record redis =
  zsets :: "string \<Rightarrow> zset"
  ttl :: "string \<rightharpoonup> int"

text \<open>A key whose expiry time has been reached no longer exists.\<close>

definition redis_at :: "int \<Rightarrow> string \<Rightarrow> redis \<Rightarrow> redis" where
  "redis_at now key db =
     (case ttl db key of
        None \<Rightarrow> db
      | Some deadline \<Rightarrow>
          if deadline \<le> now then db\<lparr>zsets := (zsets db)(key := []), ttl := (ttl db)(key := None)\<rparr>
          else db)"

text \<open>\<open>ZREMRANGEBYSCORE key min max\<close>: removes the members with \<open>min \<le> score \<le> max\<close>.\<close>

definition zremrangebyscore :: "redis \<Rightarrow> string \<Rightarrow> int \<Rightarrow> int \<Rightarrow> redis" where
  "zremrangebyscore db key lo hi =
     db\<lparr>zsets := (zsets db)(key := filter (\<lambda>(m, s). \<not> (lo \<le> s \<and> s \<le> hi)) (zsets db key))\<rparr>"

text \<open>\<open>ZADD key score member\<close>: a member already in the set only has its score updated.\<close>

definition zadd :: "redis \<Rightarrow> string \<Rightarrow> string \<Rightarrow> int \<Rightarrow> redis" where
  "zadd db key member score =
     (let z = zsets db key in
      db\<lparr>zsets := (zsets db)(key :=
        (if member \<in> fst ` set z
         then map (\<lambda>(m, s). if m = member then (m, score) else (m, s)) z
         else z @ [(member, score)]))\<rparr>)"

definition zcard :: "redis \<Rightarrow> string \<Rightarrow> int" where
  "zcard db key = int (length (zsets db key))"

text \<open>\<open>EXPIRE key seconds\<close>: a timeout that is not positive deletes the key.\<close>

definition expire :: "redis \<Rightarrow> string \<Rightarrow> int \<Rightarrow> int \<Rightarrow> redis" where
  "expire db key seconds now =
     (if seconds \<le> 0
      then db\<lparr>zsets := (zsets db)(key := []), ttl := (ttl db)(key := None)\<rparr>
      else db\<lparr>ttl := (ttl db)(key \<mapsto> now + seconds)\<rparr>)"

subsection \<open>The middleware\<close>

text \<open>
  The fields set by \<open>__init__\<close>, and \<open>requests\<close> for the attribute \<open>_requests\<close> that the
  in-memory branch creates on first use (a missing attribute and a missing key are both
  \<open>None\<close> here).
\<close>

record rate_limiter =
  redis_client :: "redis option"
  rate_limit :: int
  rate_limit_by_path :: "string \<rightharpoonup> int"
  window_size :: int
  exclude_paths :: "string set"
  requests :: "string \<rightharpoonup> int list"

definition get_rate_limit :: "rate_limiter \<Rightarrow> string \<Rightarrow> int" where
  "get_rate_limit self path =
     (case rate_limit_by_path self path of None \<Rightarrow> rate_limit self | Some n \<Rightarrow> n)"

text \<open>
  \<open>_check_rate_limit(key, limit)\<close>, with the value of \<open>int(time.time())\<close> as the argument
  \<open>current_time\<close>. It returns \<open>(count \<le> limit, count)\<close> and the updated middleware.
\<close>

definition check_rate_limit ::
  "rate_limiter \<Rightarrow> string \<Rightarrow> int \<Rightarrow> int \<Rightarrow> (bool \<times> int) \<times> rate_limiter" where
  "check_rate_limit self key limit current_time =
     (let window_start = current_time - window_size self in
      case redis_client self of
        Some db0 \<Rightarrow>
          (let db = redis_at current_time key db0;
               db1 = zremrangebyscore db key 0 window_start;
               db2 = zadd db1 key (str_int current_time) current_time;
               count = zcard db2 key;
               db3 = expire db2 key (window_size self) current_time
           in ((count \<le> limit, count), self\<lparr>redis_client := Some db3\<rparr>))
      | None \<Rightarrow>
          (let stored = (case requests self key of None \<Rightarrow> [] | Some l \<Rightarrow> l);
               kept = filter (\<lambda>ts. ts > window_start) stored @ [current_time];
               count = int (length kept)
           in ((count \<le> limit, count), self\<lparr>requests := (requests self)(key \<mapsto> kept)\<rparr>)))"

text \<open>
  A sequence of calls with the same key and limit, at the given times: the list of
  (call time, permitted) in call order.
\<close>

fun check_sequence :: "rate_limiter \<Rightarrow> string \<Rightarrow> int \<Rightarrow> int list \<Rightarrow> (int \<times> bool) list" where
  "check_sequence self key limit [] = []"
| "check_sequence self key limit (t # ts) =
     (case check_rate_limit self key limit t of
        ((ok, count), self') \<Rightarrow> (t, ok) # check_sequence self' key limit ts)"


section \<open>Requests, responses and exceptions\<close>

text \<open>
  The exception classes the modelled code raises or catches. \<open>HTTPException\<close> carries
  \<open>status_code\<close>, \<open>detail\<close> and \<open>headers\<close>; \<open>AppException\<close> carries \<open>error_code\<close>,
  \<open>detail\<close>, \<open>status_code\<close> and \<open>details\<close>; pydantic's \<open>ValidationError\<close> carries the
  names of the fields it reports; \<open>SQLAlchemyError\<close> carries \<open>str(exc)\<close>;
  \<open>ExpiredSignatureError\<close> and \<open>JWTClaimsError\<close> are subclasses of \<open>JWTError\<close>;
  \<open>AttributeError\<close> to \<open>OverflowError\<close> are Python's built-in classes, as the
  interpreter and the libraries raise them; \<open>Exception\<close> stands for any other exception
  class (its class name and \<open>str(exc)\<close>).
\<close>

datatype exn =
    HTTPException int string "(string \<times> string) list"
  | AppException int string int "string option"
  | JWTError
  | ExpiredSignatureError
  | JWTClaimsError
  | PydanticValidationError "string list"
  | SQLAlchemyError string
  | AttributeError
  | KeyError
  | ValueError
  | TypeError
  | IndexError
  | OverflowError
  | Exception string string

fun is_JWTError :: "exn \<Rightarrow> bool" where
  "is_JWTError JWTError = True"
| "is_JWTError ExpiredSignatureError = True"
| "is_JWTError JWTClaimsError = True"
| "is_JWTError _ = False"

text \<open>
  \<open>ErrorResponse\<close> (schemas/error.py). \<open>details\<close> is \<open>Optional[Any]\<close>: a text, the
  error list of a validation error, or the dictionary with \<open>str(exc)\<close> and the traceback
  that the debug mode builds from an exception.
\<close>

datatype details = Details_text string | Details_errors "string list" | Details_debug exn

record error_response =
  error_code :: int
  message :: string
  details :: "details option"
  trace_id :: "string option"

text \<open>
  A response: its status, the header list of the response object (names in lower case,
  as Starlette stores them; the Content-Length and Content-Type entries that Starlette
  derives from the body are left out) and its content.
\<close>

datatype content = Text string | Json error_response

record response =
  status_code :: int
  headers :: "(string \<times> string) list"
  content :: content

definition Response :: "string \<Rightarrow> int \<Rightarrow> (string \<times> string) list \<Rightarrow> response" where
  "Response body status hdrs =
     \<lparr>status_code = status, headers = map (\<lambda>(k, v). (lower k, v)) hdrs, content = Text body\<rparr>"

definition JSONResponse :: "int \<Rightarrow> error_response \<Rightarrow> response" where
  "JSONResponse status body = \<lparr>status_code = status, headers = [], content = Json body\<rparr>"

text \<open>
  A request as the middlewares read it: \<open>client\<close> is \<open>request.client.host\<close>, or \<open>None\<close>
  when \<open>request.client\<close> is \<open>None\<close>; \<open>query_params\<close> are the parsed pairs;
  \<open>path_params_text\<close> is \<open>str(request.path_params)\<close>; \<open>body_text\<close> is
  \<open>str(await request.json())\<close>, or \<open>None\<close> when \<open>request.json()\<close> raises;
  \<open>request_id\<close> is \<open>request.state.request_id\<close> when that attribute is set.
\<close>

record request =
  http_method :: string
  path :: string
  client :: "string option"
  query_params :: "(string \<times> string) list"
  path_params_text :: string
  body_text :: "string option"
  request_id :: "string option"

text \<open>
  \<open>call_next\<close>: the rest of the application, which returns a response or raises, and
  whose own state \<open>'h\<close> changes when it runs.
\<close>

type_synonym 'h call_next = "request \<Rightarrow> 'h \<Rightarrow> (exn + response) \<times> 'h"

subsection \<open>\<open>RateLimitingMiddleware.dispatch\<close>\<close>

definition RateLimitingMiddleware_dispatch ::
  "rate_limiter \<Rightarrow> request \<Rightarrow> 'h call_next \<Rightarrow> int \<Rightarrow> 'h \<Rightarrow> (exn + response) \<times> rate_limiter \<times> 'h" where
  "RateLimitingMiddleware_dispatch self req call_next current_time h =
     (if path req \<in> exclude_paths self
      then (case call_next req h of (r, h') \<Rightarrow> (r, self, h'))
      else
        (let client_ip = (case client req of Some host \<Rightarrow> host | None \<Rightarrow> ''unknown'');
             limit = get_rate_limit self (path req);
             rate_limit_key = ''rate_limit:'' @ client_ip @ '':'' @ path req
         in case check_rate_limit self rate_limit_key limit current_time of
              ((is_allowed, current_count), self') \<Rightarrow>
                if \<not> is_allowed
                then (Inr (Response ''Too Many Requests'' 429
                             [(''Retry-After'', str_int (window_size self'))]), self', h)
                else (case call_next req h of (r, h') \<Rightarrow> (r, self', h'))))"

section \<open>Security headers: \<open>SecurityHeadersMiddleware\<close>\<close>

text \<open>
  \<open>response.headers[key] = value\<close> (Starlette's \<open>MutableHeaders.__setitem__\<close>): the first
  entry with that name is overwritten and the later ones are deleted; a name not yet
  present is appended.
\<close>

fun set_first :: "string \<Rightarrow> string \<Rightarrow> (string \<times> string) list \<Rightarrow> (string \<times> string) list" where
  "set_first k v [] = []"
| "set_first k v ((k', v') # hs) =
     (if k' = k then (k, v) # filter (\<lambda>(a, b). a \<noteq> k) hs else (k', v') # set_first k v hs)"

definition setitem :: "(string \<times> string) list \<Rightarrow> string \<Rightarrow> string \<Rightarrow> (string \<times> string) list" where
  "setitem hs key v =
     (let set_key = lower key in
      if set_key \<in> fst ` set hs then set_first set_key v hs else hs @ [(set_key, v)])"

text \<open>The seven assignments of \<open>dispatch\<close>, in the order of the source.\<close>

definition security_headers :: "(string \<times> string) list" where
  "security_headers =
     [(''X-Content-Type-Options'', ''nosniff''),
      (''X-Frame-Options'', ''DENY''),
      (''X-XSS-Protection'', ''1; mode=block''),
      (''Strict-Transport-Security'', ''max-age=31536000; includeSubDomains''),
      (''Content-Security-Policy'', ''default-src 'self'' @ [CHR 0x27]),
      (''Referrer-Policy'', ''strict-origin-when-cross-origin''),
      (''Permissions-Policy'', ''geolocation=(), microphone=()'')]"

definition add_security_headers :: "response \<Rightarrow> response" where
  "add_security_headers r =
     r\<lparr>headers := foldl (\<lambda>hs (k, v). setitem hs k v) (headers r) security_headers\<rparr>"

definition SecurityHeadersMiddleware_dispatch ::
  "request \<Rightarrow> 'h call_next \<Rightarrow> 'h \<Rightarrow> (exn + response) \<times> 'h" where
  "SecurityHeadersMiddleware_dispatch req call_next h =
     (case call_next req h of
        (Inl e, h') \<Rightarrow> (Inl e, h')
      | (Inr r, h') \<Rightarrow> (Inr (add_security_headers r), h'))"

section \<open>Injection screening: \<open>SQLInjectionMiddleware\<close>\<close>

subsection \<open>Regular expressions\<close>

text \<open>
  The part of Python's \<open>re\<close> syntax that \<open>sql_patterns\<close> uses. \<open>Star\<close> is \<open>r*\<close> and also
  the lazy \<open>r*?\<close>: whether a pattern matches somewhere does not depend on which match
  is tried first. \<open>Boundary\<close> is \<open>\b\<close>.
\<close>

datatype regex =
    Lit string
  | Dot
  | Space
  | Word
  | Boundary
  | Seq regex regex
  | Alt regex regex
  | Star regex

definition Plus :: "regex \<Rightarrow> regex" where
  "Plus r = Seq r (Star r)"

definition is_word :: "char \<Rightarrow> bool" where
  "is_word c =
     (let n = (of_char c :: nat) in
      (48 \<le> n \<and> n \<le> 57) \<or> (65 \<le> n \<and> n \<le> 90) \<or> (97 \<le> n \<and> n \<le> 122) \<or> n = 95)"

definition at_boundary :: "string \<Rightarrow> nat \<Rightarrow> bool" where
  "at_boundary s i =
     ((0 < i \<and> i \<le> length s \<and> is_word (s ! (i - 1))) \<noteq> (i < length s \<and> is_word (s ! i)))"

text \<open>
  \<open>star_from step n ps\<close>: the positions reached from \<open>ps\<close> by at most \<open>n\<close> further
  matches of the starred expression.
\<close>

fun star_from :: "(nat \<Rightarrow> nat list) \<Rightarrow> nat \<Rightarrow> nat list \<Rightarrow> nat list" where
  "star_from step 0 ps = ps"
| "star_from step (Suc n) ps = ps @ star_from step n (concat (map step ps))"

text \<open>
  \<open>ends ic r s i\<close>: the positions at which a match of \<open>r\<close> that starts at position \<open>i\<close>
  of \<open>s\<close> can end; \<open>ic\<close> is the flag \<open>(?i)\<close>.
\<close>

fun ends :: "bool \<Rightarrow> regex \<Rightarrow> string \<Rightarrow> nat \<Rightarrow> nat list" where
  "ends ic (Lit l) s i =
     (let t = take (length l) (drop i s) in
      if (if ic then lower t = lower l else t = l) then [i + length l] else [])"
| "ends ic Dot s i = (if i < length s \<and> s ! i \<noteq> CHR 0x0A then [Suc i] else [])"
| "ends ic Space s i = (if i < length s \<and> is_space (s ! i) then [Suc i] else [])"
| "ends ic Word s i = (if i < length s \<and> is_word (s ! i) then [Suc i] else [])"
| "ends ic Boundary s i = (if at_boundary s i then [i] else [])"
| "ends ic (Seq a b) s i = concat (map (ends ic b s) (ends ic a s i))"
| "ends ic (Alt a b) s i = ends ic a s i @ ends ic b s i"
| "ends ic (Star a) s i = star_from (ends ic a s) (length s) [i]"

text \<open>\<open>pattern.search(text)\<close>, as a truth value.\<close>

definition search :: "bool \<times> regex \<Rightarrow> string \<Rightarrow> bool" where
  "search p s = (\<exists>i \<in> set [0..<Suc (length s)]. ends (fst p) (snd p) s i \<noteq> [])"

subsection \<open>The patterns\<close>

definition alts :: "string list \<Rightarrow> regex" where
  "alts ls = foldr (\<lambda>l r. Alt (Lit l) r) (butlast ls) (Lit (last ls))"

definition seqs :: "regex list \<Rightarrow> regex" where
  "seqs rs = foldr Seq (butlast rs) (last rs)"

text \<open>\<open>self.sql_patterns\<close>, each with its \<open>(?i)\<close> flag.\<close>

definition sql_patterns :: "(bool \<times> regex) list" where
  "sql_patterns =
     [(True, seqs [alts [''SELECT'', ''INSERT'', ''UPDATE'', ''DELETE'', ''DROP'', ''UNION'', ''ALTER''],
                   Star Dot, Lit '';'']),
      (True, seqs [Boundary, alts [''AND'', ''OR''], Boundary, Plus Space, Plus Word,
                   Star Space, Lit ''='', Star Space, Plus Word]),
      (True, alts [''--'', ''#'', ''/*'', ''*/'']),
      (True, Alt (seqs [Boundary, Lit ''EXEC'', Boundary]) (seqs [Boundary, Lit ''LIKE'', Boundary])),
      (True, Alt (seqs [Boundary, Lit ''SYSTEM'', Boundary])
              (Alt (seqs [Boundary, Lit ''USER'', Boundary])
                   (seqs [Boundary, Lit ''DATABASE'', Boundary]))),
      (False, seqs [Lit [CHR 0x27], Star Dot, Lit [CHR 0x27, CHR '';''], Star Space, Lit ''--'']),
      (False, seqs [Boundary, alts [''CONCAT'', ''CHAR'', ''ASCII''], Boundary, Star Dot, Lit ''(''])]"

definition check_sql_injection :: "string \<Rightarrow> bool" where
  "check_sql_injection text = (\<exists>pattern \<in> set sql_patterns. search pattern text)"

subsection \<open>The request data\<close>

text \<open>
  \<open>str(request.query_params)\<close> is \<open>urllib.parse.urlencode\<close> of the parsed pairs: every
  name and value goes through \<open>quote_plus\<close>.
\<close>

definition hex_digit :: "nat \<Rightarrow> char" where
  "hex_digit n = (if n < 10 then char_of (48 + n) else char_of (55 + n))"

definition quote_char :: "char \<Rightarrow> string" where
  "quote_char c =
     (if is_word c \<or> c \<in> {CHR ''.'', CHR ''-'', CHR ''~''} then [c]
      else if c = CHR '' '' then ''+''
      else [CHR ''%'', hex_digit ((of_char c :: nat) div 16), hex_digit ((of_char c :: nat) mod 16)])"

definition quote_plus :: "string \<Rightarrow> string" where
  "quote_plus s = concat (map quote_char s)"

fun join :: "string \<Rightarrow> string list \<Rightarrow> string" where
  "join sep [] = []"
| "join sep [x] = x"
| "join sep (x # y # ys) = x @ sep @ join sep (y # ys)"

definition urlencode :: "(string \<times> string) list \<Rightarrow> string" where
  "urlencode ps = join ''&'' (map (\<lambda>(k, v). quote_plus k @ ''='' @ quote_plus v) ps)"

definition get_request_data :: "request \<Rightarrow> (string \<times> string) list" where
  "get_request_data req =
     [(''query_params'', urlencode (query_params req)),
      (''path_params'', path_params_text req)] @
     (if http_method req \<in> {''POST'', ''PUT'', ''PATCH''}
      then (case body_text req of Some body \<Rightarrow> [(''body'', body)] | None \<Rightarrow> [])
      else [])"

subsection \<open>\<open>SQLInjectionMiddleware.dispatch\<close>\<close>

text \<open>
  The loop over the request data. A suspicious value is logged first, and the log record
  reads \<open>request.client.host\<close>, which raises \<open>AttributeError\<close> when \<open>request.client\<close> is
  \<open>None\<close>. \<open>Inr None\<close>: the loop ended without a response.
\<close>

fun screen_request_data :: "bool \<Rightarrow> request \<Rightarrow> (string \<times> string) list \<Rightarrow> exn + response option" where
  "screen_request_data block_suspicious req [] = Inr None"
| "screen_request_data block_suspicious req ((key, v) # rest) =
     (if check_sql_injection v
      then (case client req of
              None \<Rightarrow> Inl AttributeError
            | Some host \<Rightarrow>
                if block_suspicious then Inr (Some (Response ''Invalid request'' 400 []))
                else screen_request_data block_suspicious req rest)
      else screen_request_data block_suspicious req rest)"

definition SQLInjectionMiddleware_dispatch ::
  "bool \<Rightarrow> request \<Rightarrow> 'h call_next \<Rightarrow> 'h \<Rightarrow> (exn + response) \<times> 'h" where
  "SQLInjectionMiddleware_dispatch block_suspicious req call_next h =
     (case screen_request_data block_suspicious req (get_request_data req) of
        Inl e \<Rightarrow> (Inl e, h)
      | Inr (Some r) \<Rightarrow> (Inr r, h)
      | Inr None \<Rightarrow> call_next req h)"

section \<open>Settings (core/config.py)\<close>

record settings =
  DEBUG :: bool
  SECRET_KEY :: string
  ACCESS_TOKEN_EXPIRE_MINUTES :: int
  REFRESH_TOKEN_EXPIRE_MINUTES :: int

section \<open>Exception handling: \<open>ExceptionHandlerMiddleware\<close> (middlewares/exception.py)\<close>

subsection \<open>The log calls\<close>

text \<open>
  The logger is loguru's (utils/logger.py). Its methods take
  \<open>(message, *args, **kwargs)\<close>, and a message that comes with arguments is a format
  string: the call evaluates \<open>message.format(*args, **kwargs)\<close> before any sink sees the
  record, and an exception of \<open>str.format\<close> leaves the log call. The handlers below pass
  keyword arguments (\<open>extra\<close>, \<open>exc_info\<close>) and no positional one.

  \<open>str.format\<close> reads the message from left to right. \<open>{{\<close> and \<open>}}\<close> stand for one
  brace; any other \<open>}\<close>, and a \<open>{\<close> that ends the message, raise \<open>ValueError\<close>. Any other
  \<open>{\<close> opens a replacement field. The name of the field ends at \<open>:\<close>, \<open>!\<close> or \<open>}\<close>
  outside square brackets; a conversion is the one character after \<open>!\<close>; a format
  specification runs from \<open>:\<close> to the brace that closes the field, with braces nested.
  A field that is not closed raises \<open>ValueError\<close>.

  The object of a field is found by the first part of its name, up to \<open>.\<close> or \<open>[\<close>. An
  empty or a decimal one is an index into the positional arguments, of which there are
  none: \<open>IndexError\<close>, or \<open>ValueError\<close> once the digits exceed the largest index
  (\<open>sys.maxsize\<close>, here that of a 64-bit build). Any other is the name of a keyword
  argument: \<open>KeyError\<close> when the call has none of that name. What a field of an existing
  keyword argument does depends on the attributes, the items and the formats of that
  object; \<open>py_field\<close> stands for that part of Python, from the text of the field to the
  exception it raises, if any.
\<close>

definition field_lookup :: "(string \<Rightarrow> exn option) \<Rightarrow> string list \<Rightarrow> string \<Rightarrow> exn option" where
  "field_lookup py_field kwargs field =
     (let first = takeWhile (\<lambda>c. c \<notin> set ''.[!:'') field;
          number = takeWhile is_digit first
      in if foldl (\<lambda>n c. 10 * n + digit_val c) 0 number > 9223372036854775807 then Some ValueError
         else if number = first then Some IndexError
         else if first \<in> set kwargs then py_field field
         else Some KeyError)"

text \<open>
  The scanner, with the part of the message it is in: literal text, the name of a field,
  square brackets within the name, the conversion, or the format specification (with
  the number of open braces). \<open>field\<close> is the text of the field read so far; the result is
  the exception raised, if any.
\<close>

datatype format_mode = Literal | Name | Index | Conversion | Spec nat

fun format_scan ::
  "(string \<Rightarrow> exn option) \<Rightarrow> string list \<Rightarrow> format_mode \<Rightarrow> string \<Rightarrow> string \<Rightarrow> exn option" where
  "format_scan py_field kwargs Literal field [] = None"
| "format_scan py_field kwargs Literal field [c] =
     (if c = CHR ''{'' \<or> c = CHR ''}'' then Some ValueError else None)"
| "format_scan py_field kwargs Literal field (c # d # s) =
     (if c = CHR ''}''
      then (if d = CHR ''}'' then format_scan py_field kwargs Literal [] s else Some ValueError)
      else if c = CHR ''{''
      then (if d = CHR ''{'' then format_scan py_field kwargs Literal [] s
            else format_scan py_field kwargs Name [] (d # s))
      else format_scan py_field kwargs Literal [] (d # s))"
| "format_scan py_field kwargs Name field [] = Some ValueError"
| "format_scan py_field kwargs Name field (c # s) =
     (if c = CHR ''{'' then Some ValueError
      else if c = CHR ''['' then format_scan py_field kwargs Index (field @ [c]) s
      else if c = CHR ''}''
      then (case field_lookup py_field kwargs field of
              Some e \<Rightarrow> Some e
            | None \<Rightarrow> format_scan py_field kwargs Literal [] s)
      else if c = CHR '':'' then format_scan py_field kwargs (Spec 1) (field @ [c]) s
      else if c = CHR ''!'' then format_scan py_field kwargs Conversion (field @ [c]) s
      else format_scan py_field kwargs Name (field @ [c]) s)"
| "format_scan py_field kwargs Index field [] = Some ValueError"
| "format_scan py_field kwargs Index field (c # s) =
     format_scan py_field kwargs (if c = CHR '']'' then Name else Index) (field @ [c]) s"
| "format_scan py_field kwargs Conversion field [] = Some ValueError"
| "format_scan py_field kwargs Conversion field [c] = Some ValueError"
| "format_scan py_field kwargs Conversion field (c # d # s) =
     (if d = CHR ''}''
      then (case field_lookup py_field kwargs (field @ [c]) of
              Some e \<Rightarrow> Some e
            | None \<Rightarrow> format_scan py_field kwargs Literal [] s)
      else if d = CHR '':'' then format_scan py_field kwargs (Spec 1) (field @ [c, d]) s
      else Some ValueError)"
| "format_scan py_field kwargs (Spec n) field [] = Some ValueError"
| "format_scan py_field kwargs (Spec n) field (c # s) =
     (if c = CHR ''{'' then format_scan py_field kwargs (Spec (n + 1)) (field @ [c]) s
      else if c = CHR ''}''
      then (if n \<le> 1
            then (case field_lookup py_field kwargs field of
                    Some e \<Rightarrow> Some e
                  | None \<Rightarrow> format_scan py_field kwargs Literal [] s)
            else format_scan py_field kwargs (Spec (n - 1)) (field @ [c]) s)
      else format_scan py_field kwargs (Spec n) (field @ [c]) s)"

text \<open>
  A log call with the names of its keyword arguments, at a level that a sink takes
  (loguru's default sink takes every level the handlers use): the exception that leaves
  the call, if any.
\<close>

definition logger_log :: "(string \<Rightarrow> exn option) \<Rightarrow> string \<Rightarrow> string list \<Rightarrow> exn option" where
  "logger_log py_field msg kwargs =
     (if kwargs = [] then None else format_scan py_field kwargs Literal [] msg)"

subsection \<open>\<open>str(exc)\<close>\<close>

text \<open>
  The text of an exception: \<open>Exception\<close> and \<open>SQLAlchemyError\<close> carry it, Starlette's
  \<open>HTTPException\<close> (and so \<open>AppException\<close>) gives \<open>f"{status_code}: {detail}"\<close>. The other
  classes are raised by the libraries with messages that the models leave out; \<open>py_str\<close>
  stands for their text.
\<close>

fun str_exc :: "(exn \<Rightarrow> string) \<Rightarrow> exn \<Rightarrow> string" where
  "str_exc py_str (Exception cls text) = text"
| "str_exc py_str (SQLAlchemyError text) = text"
| "str_exc py_str (HTTPException status detail hdrs) = str_int status @ '': '' @ detail"
| "str_exc py_str (AppException code detail status exc_details) = str_int status @ '': '' @ detail"
| "str_exc py_str exc = py_str exc"

subsection \<open>The handlers\<close>

text \<open>
  Each handler builds the \<open>ErrorResponse\<close>, makes its log call and returns the
  \<open>JSONResponse\<close>; \<open>request_id req\<close> is \<open>getattr(request.state, "request_id", None)\<close> at
  that moment.
\<close>

definition handle_app_exception ::
  "(string \<Rightarrow> exn option) \<Rightarrow> int \<Rightarrow> string \<Rightarrow> int \<Rightarrow> string option \<Rightarrow> request \<Rightarrow> exn + response" where
  "handle_app_exception py_field code detail status exc_details req =
     (let error_response =
            \<lparr>error_code = code, message = detail, details = map_option Details_text exc_details,
             trace_id = request_id req\<rparr>
      in case logger_log py_field (''Application error: '' @ detail) [''extra''] of
           Some e \<Rightarrow> Inl e
         | None \<Rightarrow> Inr (JSONResponse status error_response))"

definition handle_validation_error ::
  "(string \<Rightarrow> exn option) \<Rightarrow> string list \<Rightarrow> request \<Rightarrow> exn + response" where
  "handle_validation_error py_field errors req =
     (let error_response =
            \<lparr>error_code = 4000, message = ''Validation error'', details = Some (Details_errors errors),
             trace_id = request_id req\<rparr>
      in case logger_log py_field ''Validation error'' [''extra''] of
           Some e \<Rightarrow> Inl e
         | None \<Rightarrow> Inr (JSONResponse 400 error_response))"

definition handle_database_error ::
  "settings \<Rightarrow> (string \<Rightarrow> exn option) \<Rightarrow> string \<Rightarrow> request \<Rightarrow> exn + response" where
  "handle_database_error cfg py_field exc_str req =
     (let error_response =
            \<lparr>error_code = 5000, message = ''Database error occurred'',
             details = (if DEBUG cfg then Some (Details_text exc_str) else None),
             trace_id = request_id req\<rparr>
      in case logger_log py_field (''Database error: '' @ exc_str) [''extra'', ''exc_info''] of
           Some e \<Rightarrow> Inl e
         | None \<Rightarrow> Inr (JSONResponse 500 error_response))"

definition handle_unknown_error ::
  "settings \<Rightarrow> (exn \<Rightarrow> string) \<Rightarrow> (string \<Rightarrow> exn option) \<Rightarrow> exn \<Rightarrow> request \<Rightarrow> exn + response" where
  "handle_unknown_error cfg py_str py_field exc req =
     (let error_response =
            \<lparr>error_code = 5001, message = ''Internal server error'', details = None,
             trace_id = request_id req\<rparr>;
          error_response' =
            (if DEBUG cfg then error_response\<lparr>details := Some (Details_debug exc)\<rparr>
             else error_response)
      in case logger_log py_field (''Unhandled error: '' @ str_exc py_str exc) [''extra'', ''exc_info''] of
           Some e \<Rightarrow> Inl e
         | None \<Rightarrow> Inr (JSONResponse 500 error_response'))"

text \<open>
  The exceptions that none of the first three \<open>except\<close> clauses of \<open>dispatch\<close> catches.
\<close>

fun unknown_error :: "exn \<Rightarrow> bool" where
  "unknown_error (AppException code detail status exc_details) = False"
| "unknown_error (PydanticValidationError errors) = False"
| "unknown_error (SQLAlchemyError exc_str) = False"
| "unknown_error exc = True"

text \<open>The \<open>except\<close> clauses of \<open>dispatch\<close>, in the order of the source.\<close>

fun handle_exception ::
  "settings \<Rightarrow> (exn \<Rightarrow> string) \<Rightarrow> (string \<Rightarrow> exn option) \<Rightarrow> exn \<Rightarrow> request \<Rightarrow> exn + response" where
  "handle_exception cfg py_str py_field (AppException code detail status exc_details) req =
     handle_app_exception py_field code detail status exc_details req"
| "handle_exception cfg py_str py_field (PydanticValidationError errors) req =
     handle_validation_error py_field errors req"
| "handle_exception cfg py_str py_field (SQLAlchemyError exc_str) req =
     handle_database_error cfg py_field exc_str req"
| "handle_exception cfg py_str py_field exc req = handle_unknown_error cfg py_str py_field exc req"

subsection \<open>\<open>ExceptionHandlerMiddleware.dispatch\<close>\<close>

text \<open>
  The handlers read \<open>request.state\<close> after \<open>call_next\<close> has raised, and the stages inside
  were handed the same ASGI scope, whose \<open>state\<close> they share with this request: an id that
  \<open>ResponseMiddleware\<close> sets inside is the one the handlers find. So \<open>call_next\<close> gives
  here, with its result, the \<open>request_id\<close> of \<open>request.state\<close> as the stages inside leave
  it (\<open>None\<close>: the attribute is not set).
\<close>

type_synonym 'h call_next_state = "request \<Rightarrow> 'h \<Rightarrow> (exn + response) \<times> string option \<times> 'h"

definition ExceptionHandlerMiddleware_dispatch ::
  "settings \<Rightarrow> (exn \<Rightarrow> string) \<Rightarrow> (string \<Rightarrow> exn option) \<Rightarrow> request \<Rightarrow> 'h call_next_state \<Rightarrow> 'h
     \<Rightarrow> (exn + response) \<times> 'h" where
  "ExceptionHandlerMiddleware_dispatch cfg py_str py_field req call_next h =
     (case call_next req h of
        (Inr r, state_request_id, h') \<Rightarrow> (Inr r, h')
      | (Inl e, state_request_id, h') \<Rightarrow>
          (handle_exception cfg py_str py_field e (req\<lparr>request_id := state_request_id\<rparr>), h'))"

section \<open>Tokens\<close>

subsection \<open>Values and the token\<close>

text \<open>
  The values of a claim dictionary: an integer, a string, or (before encoding) a
  \<open>datetime\<close>. A \<open>datetime\<close> is its number of microseconds since the epoch, a
  \<open>timedelta\<close> a number of microseconds. A dictionary is the list of its items in
  insertion order.
\<close>

datatype pyval = PyInt int | PyStr string | PyDatetime int

type_synonym claims = "(string \<times> pyval) list"

text \<open>
  A token is the header's \<open>alg\<close>, the payload and the signature; \<open>Malformed\<close> is a string
  that does not split into three base64 segments holding a JSON header and a JSON
  object. The signature algorithm (HMAC-SHA256 of the key over header and payload) is a
  parameter \<open>hmac\<close> of the functions below.
\<close>

datatype 'sig jwt = JWT (alg: string) (payload: claims) (signature: 'sig) | Malformed

type_synonym 'sig hmac = "string \<Rightarrow> string \<times> claims \<Rightarrow> 'sig"

text \<open>
  A \<open>datetime\<close> lies between the years 1 and 9999, a \<open>timedelta\<close> within 999999999 days
  either way; a constructor or a sum that leaves these bounds raises \<open>OverflowError\<close>.
\<close>

definition datetime_min :: int where
  "datetime_min = - 62135596800000000"

definition datetime_max :: int where
  "datetime_max = 253402300799999999"

text \<open>\<open>timedelta(minutes=m)\<close>\<close>

definition timedelta_minutes :: "int \<Rightarrow> exn + int" where
  "timedelta_minutes m =
     (if - 86399999913600000000 \<le> m * 60000000 \<and> m * 60000000 \<le> 86399999999999999999
      then Inr (m * 60000000) else Inl OverflowError)"

text \<open>\<open>d + delta\<close> for a \<open>datetime\<close> and a \<open>timedelta\<close>\<close>

definition datetime_add :: "int \<Rightarrow> int \<Rightarrow> exn + int" where
  "datetime_add d delta =
     (if datetime_min \<le> d + delta \<and> d + delta \<le> datetime_max then Inr (d + delta)
      else Inl OverflowError)"

text \<open>\<open>timegm(d.utctimetuple())\<close>: the whole seconds of a \<open>datetime\<close>.\<close>

definition timegm :: "int \<Rightarrow> int" where
  "timegm d = d div 1000000"

subsection \<open>python-jose: \<open>jwt.encode\<close> and \<open>jwt.decode\<close>\<close>

text \<open>
  \<open>jwt.encode(claims, key, algorithm="HS256")\<close>: a \<open>datetime\<close> under \<open>exp\<close>, \<open>iat\<close> or
  \<open>nbf\<close> becomes its whole seconds; any other \<open>datetime\<close> cannot be serialised.
\<close>

definition encode_claim :: "string \<times> pyval \<Rightarrow> string \<times> pyval" where
  "encode_claim kv =
     (case kv of
        (k, PyDatetime d) \<Rightarrow> if k \<in> {''exp'', ''iat'', ''nbf''} then (k, PyInt (timegm d)) else (k, PyDatetime d)
      | (k, v) \<Rightarrow> (k, v))"

fun is_datetime :: "pyval \<Rightarrow> bool" where
  "is_datetime (PyDatetime d) = True"
| "is_datetime _ = False"

definition jwt_encode :: "'sig hmac \<Rightarrow> claims \<Rightarrow> string \<Rightarrow> exn + 'sig jwt" where
  "jwt_encode hmac to_encode key =
     (let cs = map encode_claim to_encode in
      if list_ex (\<lambda>(k, v). is_datetime v) cs then Inl TypeError
      else Inr (JWT ''HS256'' cs (hmac key (''HS256'', cs))))"

text \<open>\<open>int(v)\<close> for a claim value.\<close>

fun int_of :: "pyval \<Rightarrow> exn + int" where
  "int_of (PyInt n) = Inr n"
| "int_of (PyStr s) = (case py_int s of None \<Rightarrow> Inl ValueError | Some n \<Rightarrow> Inr n)"
| "int_of (PyDatetime d) = Inl TypeError"

text \<open>
  \<open>try: int(claims[name]) except ValueError: raise JWTClaimsError\<close>, then the check
  \<open>ok\<close> of the value, which raises \<open>err\<close>.
\<close>

definition validate_time_claim :: "claims \<Rightarrow> string \<Rightarrow> (int \<Rightarrow> bool) \<Rightarrow> exn \<Rightarrow> exn + unit" where
  "validate_time_claim cs name ok err =
     (case map_of cs name of
        None \<Rightarrow> Inr ()
      | Some v \<Rightarrow>
          (case int_of v of
             Inl ValueError \<Rightarrow> Inl JWTClaimsError
           | Inl e \<Rightarrow> Inl e
           | Inr n \<Rightarrow> if ok n then Inr () else Inl err))"

definition validate_string_claim :: "claims \<Rightarrow> string \<Rightarrow> exn + unit" where
  "validate_string_claim cs name =
     (case map_of cs name of
        None \<Rightarrow> Inr ()
      | Some (PyStr s) \<Rightarrow> Inr ()
      | Some v \<Rightarrow> Inl JWTClaimsError)"

text \<open>
  A claim that is refused whenever it is present: \<open>aud\<close> with no expected audience, and
  \<open>at_hash\<close> with no access token to compare it with.
\<close>

definition validate_absent :: "claims \<Rightarrow> string \<Rightarrow> exn + unit" where
  "validate_absent cs name = (case map_of cs name of None \<Rightarrow> Inr () | Some v \<Rightarrow> Inl JWTClaimsError)"

definition and_then :: "exn + unit \<Rightarrow> exn + unit \<Rightarrow> exn + unit" where
  "and_then a b = (case a of Inl e \<Rightarrow> Inl e | Inr u \<Rightarrow> b)"

text \<open>
  \<open>_validate_claims\<close> with the default options and no audience, issuer, subject or access
  token: \<open>iat\<close>, \<open>nbf\<close>, \<open>exp\<close>, \<open>aud\<close>, \<open>sub\<close>, \<open>jti\<close>, \<open>at_hash\<close>, in this order. \<open>now\<close>
  is the clock in whole seconds. A token has expired when \<open>exp < now\<close>.
\<close>

definition validate_claims :: "claims \<Rightarrow> int \<Rightarrow> exn + unit" where
  "validate_claims cs now =
     and_then (validate_time_claim cs ''iat'' (\<lambda>n. True) JWTClaimsError)
    (and_then (validate_time_claim cs ''nbf'' (\<lambda>n. \<not> n > now) JWTClaimsError)
    (and_then (validate_time_claim cs ''exp'' (\<lambda>n. \<not> n < now) ExpiredSignatureError)
    (and_then (validate_absent cs ''aud'')
    (and_then (validate_string_claim cs ''sub'')
    (and_then (validate_string_claim cs ''jti'')
              (validate_absent cs ''at_hash''))))))"

text \<open>
  \<open>jwt.decode(token, key, algorithms=["HS256"])\<close> at the clock reading \<open>utcnow\<close>
  (a \<open>datetime\<close>).
\<close>

definition jwt_decode :: "'sig hmac \<Rightarrow> 'sig jwt \<Rightarrow> string \<Rightarrow> int \<Rightarrow> exn + claims" where
  "jwt_decode hmac token key utcnow =
     (case token of
        Malformed \<Rightarrow> Inl JWTError
      | JWT a cs sg \<Rightarrow>
          if a \<noteq> ''HS256'' then Inl JWTError
          else if sg \<noteq> hmac key (a, cs) then Inl JWTError
          else (case validate_claims cs (timegm utcnow) of Inl e \<Rightarrow> Inl e | Inr u \<Rightarrow> Inr cs))"

subsection \<open>\<open>AuthService\<close> (services/auth.py)\<close>

text \<open>The subject of a token is \<open>str | int\<close>; \<open>str_subject\<close> is \<open>str(subject)\<close>.\<close>

datatype subject = Subject_str string | Subject_int int

fun str_subject :: "subject \<Rightarrow> string" where
  "str_subject (Subject_str s) = s"
| "str_subject (Subject_int n) = str_int n"

text \<open>
  \<open>utcnow\<close> is the value of \<open>datetime.utcnow()\<close>. \<open>if expires_delta:\<close> holds for a
  \<open>timedelta\<close> that is given and not zero.
\<close>

definition create_access_token ::
  "'sig hmac \<Rightarrow> settings \<Rightarrow> int \<Rightarrow> subject \<Rightarrow> int option \<Rightarrow> exn + 'sig jwt" where
  "create_access_token hmac cfg utcnow subj expires_delta =
     (let default_expire =
            (case timedelta_minutes (ACCESS_TOKEN_EXPIRE_MINUTES cfg) of
               Inl e \<Rightarrow> Inl e
             | Inr delta \<Rightarrow> datetime_add utcnow delta)
      in case (case expires_delta of
                 Some d \<Rightarrow> if d \<noteq> 0 then datetime_add utcnow d else default_expire
               | None \<Rightarrow> default_expire) of
           Inl e \<Rightarrow> Inl e
         | Inr expire_time \<Rightarrow>
             (let to_encode = [(''exp'', PyDatetime expire_time), (''sub'', PyStr (str_subject subj))]
              in jwt_encode hmac to_encode (SECRET_KEY cfg)))"

definition create_refresh_token ::
  "'sig hmac \<Rightarrow> settings \<Rightarrow> int \<Rightarrow> subject \<Rightarrow> int option \<Rightarrow> exn + 'sig jwt" where
  "create_refresh_token hmac cfg utcnow subj expires_delta =
     (let default_expire =
            (case timedelta_minutes (REFRESH_TOKEN_EXPIRE_MINUTES cfg) of
               Inl e \<Rightarrow> Inl e
             | Inr delta \<Rightarrow> datetime_add utcnow delta)
      in case (case expires_delta of
                 Some d \<Rightarrow> if d \<noteq> 0 then datetime_add utcnow d else default_expire
               | None \<Rightarrow> default_expire) of
           Inl e \<Rightarrow> Inl e
         | Inr expire_time \<Rightarrow>
             (let to_encode = [(''exp'', PyDatetime expire_time), (''sub'', PyStr (str_subject subj))]
              in jwt_encode hmac to_encode (SECRET_KEY cfg)))"

text \<open>
  The \<open>User\<close> rows and the database session. SQLAlchemy is not part of the repository:
  \<open>db_get\<close> is \<open>db.get(User, key)\<close> and \<open>db_select_email\<close> the rows that
  \<open>select(User).where(User.email == email)\<close> returns.
\<close>

record user =
  user_id :: int
  email :: string
  username :: string
  hashed_password :: string
  is_active :: bool
  is_superuser :: bool

record session =
  db_get :: "pyval \<Rightarrow> exn + user option"
  db_select_email :: "string \<Rightarrow> user list"

text \<open>
  \<open>authenticate\<close>; \<open>verify_password\<close> (passlib) is a parameter. \<open>scalar_one_or_none\<close>
  raises \<open>MultipleResultsFound\<close>, an \<open>SQLAlchemyError\<close>, on more than one row.
\<close>

definition authenticate ::
  "(string \<Rightarrow> string \<Rightarrow> bool) \<Rightarrow> string \<Rightarrow> string \<Rightarrow> session \<Rightarrow> exn + user option" where
  "authenticate verify_password mail password db =
     (case db_select_email db mail of
        [] \<Rightarrow> Inr None
      | [u] \<Rightarrow> if \<not> verify_password password (hashed_password u) then Inr None else Inr (Some u)
      | _ \<Rightarrow> Inl (SQLAlchemyError ''MultipleResultsFound''))"

subsection \<open>The schemas (schemas/token.py)\<close>

text \<open>
  \<open>Token(...)\<close>: an argument that is not passed is \<open>None\<close>. \<open>access_token\<close>,
  \<open>refresh_token\<close> and \<open>expires_in\<close> are required (\<open>Field(...)\<close>), \<open>token_type\<close> has the
  default \<open>"bearer"\<close>.
\<close>

record 'sig token =
  access_token :: "'sig jwt"
  refresh_token :: "'sig jwt"
  token_type :: string
  expires_in :: int

definition missing :: "string \<Rightarrow> 'a option \<Rightarrow> string list" where
  "missing name v = (case v of None \<Rightarrow> [name] | Some x \<Rightarrow> [])"

definition Token ::
  "'sig jwt option \<Rightarrow> 'sig jwt option \<Rightarrow> string option \<Rightarrow> int option \<Rightarrow> exn + 'sig token" where
  "Token access refresh ttype expires =
     (case (access, refresh, expires) of
        (Some a, Some r, Some e) \<Rightarrow>
          Inr \<lparr>access_token = a, refresh_token = r,
               token_type = (case ttype of None \<Rightarrow> ''bearer'' | Some t \<Rightarrow> t), expires_in = e\<rparr>
      | _ \<Rightarrow>
          Inl (PydanticValidationError
                 (missing ''access_token'' access @ missing ''refresh_token'' refresh @
                  missing ''expires_in'' expires)))"

text \<open>
  \<open>TokenPayload(**payload)\<close>. A \<open>datetime\<close> field takes an integer as Unix time: seconds,
  or milliseconds when its magnitude is beyond \<open>2e10\<close>, and no time before the year 1600
  or after the year 9999. How pydantic reads a string as a \<open>datetime\<close> is the parameter
  \<open>parse_datetime\<close>. Keys that are not fields are ignored.
\<close>

record token_payload =
  sub :: pyval
  exp :: int
  iat :: "int option"
  type :: string
  jti :: "string option"

fun as_datetime :: "(string \<Rightarrow> int option) \<Rightarrow> pyval \<Rightarrow> int option" where
  "as_datetime parse_datetime (PyInt n) =
     (let seconds = (if abs n > 20000000000 then n div 1000 else n)
      in if seconds < - 11676096000 \<or> 253402300799 < seconds then None
         else Some (if abs n > 20000000000 then n * 1000 else n * 1000000))"
| "as_datetime parse_datetime (PyStr s) = parse_datetime s"
| "as_datetime parse_datetime (PyDatetime d) = Some d"

definition TokenPayload :: "(string \<Rightarrow> int option) \<Rightarrow> claims \<Rightarrow> exn + token_payload" where
  "TokenPayload parse_datetime kwargs =
     (let sub_v = (case map_of kwargs ''sub'' of
                     Some (PyStr s) \<Rightarrow> Some (PyStr s) | Some (PyInt n) \<Rightarrow> Some (PyInt n) | _ \<Rightarrow> None);
          exp_v = (case map_of kwargs ''exp'' of
                     None \<Rightarrow> None | Some v \<Rightarrow> as_datetime parse_datetime v);
          iat_v = (case map_of kwargs ''iat'' of
                     None \<Rightarrow> Some None | Some v \<Rightarrow> map_option Some (as_datetime parse_datetime v));
          type_v = (case map_of kwargs ''type'' of
                      None \<Rightarrow> Some ''access'' | Some (PyStr s) \<Rightarrow> Some s | _ \<Rightarrow> None);
          jti_v = (case map_of kwargs ''jti'' of
                     None \<Rightarrow> Some None | Some (PyStr s) \<Rightarrow> Some (Some s) | _ \<Rightarrow> None)
      in case (sub_v, exp_v, iat_v, type_v, jti_v) of
           (Some s, Some e, Some i, Some t, Some j) \<Rightarrow>
             Inr \<lparr>sub = s, exp = e, iat = i, type = t, jti = j\<rparr>
         | _ \<Rightarrow>
             Inl (PydanticValidationError
                    (missing ''sub'' sub_v @ missing ''exp'' exp_v @ missing ''iat'' iat_v @
                     missing ''type'' type_v @ missing ''jti'' jti_v)))"

subsection \<open>\<open>get_current_user\<close> (api/deps.py)\<close>

definition credentials_exception :: exn where
  "credentials_exception =
     HTTPException 401 ''Could not validate credentials'' [(''WWW-Authenticate'', ''Bearer'')]"

text \<open>
  The \<open>try\<close> block: the token is decoded and its payload validated; a \<open>JWTError\<close> becomes
  the credentials exception, any other exception propagates.
\<close>

definition get_token_data ::
  "'sig hmac \<Rightarrow> (string \<Rightarrow> int option) \<Rightarrow> settings \<Rightarrow> 'sig jwt \<Rightarrow> int \<Rightarrow> exn + token_payload" where
  "get_token_data hmac parse_datetime cfg tok utcnow =
     (case (case jwt_decode hmac tok (SECRET_KEY cfg) utcnow of
              Inl e \<Rightarrow> Inl e
            | Inr pl \<Rightarrow> TokenPayload parse_datetime pl) of
        Inl e \<Rightarrow> if is_JWTError e then Inl credentials_exception else Inl e
      | Inr token_data \<Rightarrow> Inr token_data)"

definition get_current_user ::
  "'sig hmac \<Rightarrow> (string \<Rightarrow> int option) \<Rightarrow> settings \<Rightarrow> session \<Rightarrow> 'sig jwt \<Rightarrow> int \<Rightarrow> exn + user" where
  "get_current_user hmac parse_datetime cfg db tok utcnow =
     (case get_token_data hmac parse_datetime cfg tok utcnow of
        Inl e \<Rightarrow> Inl e
      | Inr token_data \<Rightarrow>
          (case db_get db (sub token_data) of
             Inl e \<Rightarrow> Inl e
           | Inr None \<Rightarrow> Inl credentials_exception
           | Inr (Some u) \<Rightarrow> Inr u))"

subsection \<open>The endpoints (api/endpoints/user.py)\<close>

text \<open>
  Both endpoints build their answer with
  \<open>Token(access_token=..., refresh_token=..., token_type="bearer")\<close>; \<open>t1\<close> and \<open>t2\<close> are
  the clock readings of the two token constructors.
\<close>

definition new_token_pair :: "'sig hmac \<Rightarrow> settings \<Rightarrow> user \<Rightarrow> int \<Rightarrow> int \<Rightarrow> exn + 'sig token" where
  "new_token_pair hmac cfg u t1 t2 =
     (case timedelta_minutes (ACCESS_TOKEN_EXPIRE_MINUTES cfg) of
        Inl e \<Rightarrow> Inl e
      | Inr access_token_expires \<Rightarrow>
     (case timedelta_minutes (REFRESH_TOKEN_EXPIRE_MINUTES cfg) of
        Inl e \<Rightarrow> Inl e
      | Inr refresh_token_expires \<Rightarrow>
     (case create_access_token hmac cfg t1 (Subject_int (user_id u)) (Some access_token_expires) of
        Inl e \<Rightarrow> Inl e
      | Inr a \<Rightarrow>
     (case create_refresh_token hmac cfg t2 (Subject_int (user_id u)) (Some refresh_token_expires) of
        Inl e \<Rightarrow> Inl e
      | Inr r \<Rightarrow> Token (Some a) (Some r) (Some ''bearer'') None))))"

definition login ::
  "'sig hmac \<Rightarrow> (string \<Rightarrow> string \<Rightarrow> bool) \<Rightarrow> settings \<Rightarrow> session \<Rightarrow> string \<Rightarrow> string \<Rightarrow> int \<Rightarrow> int
     \<Rightarrow> exn + 'sig token" where
  "login hmac verify_password cfg db form_username form_password t1 t2 =
     (case authenticate verify_password form_username form_password db of
        Inl e \<Rightarrow> Inl e
      | Inr None \<Rightarrow>
          Inl (HTTPException 401 ''Incorrect email or password'' [(''WWW-Authenticate'', ''Bearer'')])
      | Inr (Some u) \<Rightarrow>
          if \<not> is_active u then Inl (HTTPException 400 ''Inactive user'' [])
          else new_token_pair hmac cfg u t1 t2)"

text \<open>
  \<open>refresh_token\<close>: \<open>t0\<close> is the clock reading of \<open>jwt.decode\<close>. The \<open>except JWTError\<close>
  clause covers the whole body.
\<close>

definition refresh_token_body ::
  "'sig hmac \<Rightarrow> settings \<Rightarrow> session \<Rightarrow> 'sig jwt \<Rightarrow> int \<Rightarrow> int \<Rightarrow> int \<Rightarrow> exn + 'sig token" where
  "refresh_token_body hmac cfg db tok t0 t1 t2 =
     (case jwt_decode hmac tok (SECRET_KEY cfg) t0 of
        Inl e \<Rightarrow> Inl e
      | Inr pl \<Rightarrow>
          (case map_of pl ''sub'' of
             None \<Rightarrow> Inl KeyError
           | Some v \<Rightarrow>
               (case int_of v of
                  Inl e \<Rightarrow> Inl e
                | Inr uid \<Rightarrow>
                    (case db_get db (PyInt uid) of
                       Inl e \<Rightarrow> Inl e
                     | Inr None \<Rightarrow> Inl (HTTPException 401 ''Invalid refresh token'' [])
                     | Inr (Some u) \<Rightarrow>
                         if \<not> is_active u then Inl (HTTPException 401 ''Invalid refresh token'' [])
                         else new_token_pair hmac cfg u t1 t2))))"

definition refresh_token ::
  "'sig hmac \<Rightarrow> settings \<Rightarrow> session \<Rightarrow> 'sig jwt \<Rightarrow> int \<Rightarrow> int \<Rightarrow> int \<Rightarrow> exn + 'sig token" where
  "refresh_token hmac cfg db tok t0 t1 t2 =
     (case refresh_token_body hmac cfg db tok t0 t1 t2 of
        Inl e \<Rightarrow> if is_JWTError e then Inl (HTTPException 401 ''Invalid refresh token'' []) else Inl e
      | Inr t \<Rightarrow> Inr t)"

section \<open>The invariant of the rate-limit store\<close>

text \<open>
  \<open>tracks self key hist t0\<close>: the calls at the times \<open>hist\<close>, none later than \<open>t0\<close>, are
  still accounted for. In memory, for every threshold from \<open>t0 - window_size\<close> on, the
  recorded list holds at least as many entries above it as \<open>hist\<close> does; in Redis, where
  the times of \<open>hist\<close> are distinct, at every time from \<open>t0\<close> on the sorted set still holds
  the member of every call of \<open>hist\<close> that lies in the window.
\<close>

definition tracks :: "rate_limiter \<Rightarrow> string \<Rightarrow> int list \<Rightarrow> int \<Rightarrow> bool" where
  "tracks self key hist t0 \<longleftrightarrow>
     (\<forall>h \<in> set hist. h \<le> t0) \<and>
     (case redis_client self of
        None \<Rightarrow>
          (\<forall>x. t0 - window_size self \<le> x \<longrightarrow>
             length (filter (\<lambda>s. x < s) hist)
               \<le> length (filter (\<lambda>s. x < s) (case requests self key of None \<Rightarrow> [] | Some l \<Rightarrow> l)))
      | Some db \<Rightarrow>
          distinct hist \<and> distinct (map fst (zsets db key)) \<and>
          (\<forall>t' h. t0 \<le> t' \<longrightarrow> h \<in> set hist \<longrightarrow> t' - window_size self < h \<longrightarrow>
             (str_int h, h) \<in> set (zsets (redis_at t' key db) key)))"

section \<open>Properties of the security headers\<close>

lemma set_first_filter_same:
  "k \<in> fst ` set hs \<Longrightarrow> filter (\<lambda>(a, b). a = k) (set_first k v hs) = [(k, v)]"
  by (induction hs) (force simp: filter_empty_conv image_iff)+

lemma set_first_filter_other:
  "k' \<noteq> k \<Longrightarrow> filter (\<lambda>(a, b). a = k') (set_first k v hs) = filter (\<lambda>(a, b). a = k') hs"
proof (induction hs)
  case Nil
  then show ?case by simp
next
  case (Cons x hs)
  have "filter (\<lambda>(a, b). a = k') (filter (\<lambda>(a, b). a \<noteq> k) hs) = filter (\<lambda>(a, b). a = k') hs"
    using Cons.prems by (induction hs) auto
  with Cons show ?case by (cases x) auto
qed

lemma set_first_id:
  "filter (\<lambda>(a, b). a = k) hs = [(k, v)] \<Longrightarrow> set_first k v hs = hs"
proof (induction hs)
  case Nil
  then show ?case by simp
next
  case (Cons x hs)
  obtain a b where x: "x = (a, b)" by (cases x)
  show ?case
  proof (cases "a = k")
    case True
    with Cons.prems x have "b = v" and "filter (\<lambda>(a, b). a = k) hs = []" by auto
    then have "filter (\<lambda>(a, b). a \<noteq> k) hs = hs"
      by (auto simp: filter_empty_conv filter_id_conv)
    with True x \<open>b = v\<close> show ?thesis by simp
  next
    case False
    with Cons x show ?thesis by simp
  qed
qed

lemma setitem_filter_same: "filter (\<lambda>(a, b). a = lower key) (setitem hs key v) = [(lower key, v)]"
  by (force simp: setitem_def Let_def set_first_filter_same filter_empty_conv image_iff)

lemma setitem_filter_other:
  "k' \<noteq> lower key \<Longrightarrow> filter (\<lambda>(a, b). a = k') (setitem hs key v) = filter (\<lambda>(a, b). a = k') hs"
  by (auto simp: setitem_def Let_def set_first_filter_other)

lemma setitem_id:
  assumes "filter (\<lambda>(a, b). a = lower key) hs = [(lower key, v)]"
  shows "setitem hs key v = hs"
proof -
  have "(lower key, v) \<in> set (filter (\<lambda>(a, b). a = lower key) hs)" using assms by simp
  then have "lower key \<in> fst ` set hs" by force
  with assms show ?thesis by (simp add: setitem_def Let_def set_first_id)
qed

lemma foldl_setitem_filter:
  "distinct (map (\<lambda>kv. lower (fst kv)) kvs) \<Longrightarrow> (k, v) \<in> set kvs \<Longrightarrow>
   filter (\<lambda>(a, b). a = lower k) (foldl (\<lambda>hs (k, v). setitem hs k v) hs kvs) = [(lower k, v)]"
proof (induction kvs arbitrary: hs rule: rev_induct)
  case Nil
  then show ?case by simp
next
  case (snoc x kvs)
  obtain k' v' where x: "x = (k', v')" by (cases x)
  show ?case
  proof (cases "(k, v) \<in> set kvs")
    case True
    with snoc.prems x have "lower k \<noteq> lower k'" by force
    moreover have "filter (\<lambda>(a, b). a = lower k) (foldl (\<lambda>hs (k, v). setitem hs k v) hs kvs) = [(lower k, v)]"
      using snoc True by simp
    ultimately show ?thesis using x by (simp add: setitem_filter_other)
  next
    case False
    with snoc.prems x have "k' = k" "v' = v" by auto
    then show ?thesis using x by (simp add: setitem_filter_same)
  qed
qed

lemma foldl_setitem_id:
  "\<forall>(k, v) \<in> set kvs. filter (\<lambda>(a, b). a = lower k) hs = [(lower k, v)] \<Longrightarrow>
   foldl (\<lambda>hs (k, v). setitem hs k v) hs kvs = hs"
  by (induction kvs) (auto simp: setitem_id)

lemma foldl_setitem_idem:
  assumes "distinct (map (\<lambda>kv. lower (fst kv)) kvs)"
  shows "foldl (\<lambda>hs (k, v). setitem hs k v) (foldl (\<lambda>hs (k, v). setitem hs k v) hs kvs) kvs
         = foldl (\<lambda>hs (k, v). setitem hs k v) hs kvs"
  by (rule foldl_setitem_id) (use assms in \<open>auto simp: foldl_setitem_filter\<close>)

lemma security_headers_distinct: "distinct (map (\<lambda>kv. lower (fst kv)) security_headers)"
  by (simp add: security_headers_def lower_def lower_char_def)

text \<open>
  Claim C9. Applying the security-headers stage twice yields exactly the header list
  that applying it once yields: on a response, and for the stage wrapped around itself
  as a middleware, whatever the rest of the application returns.
\<close>

theorem security_headers_idempotent:
  "add_security_headers (add_security_headers r) = add_security_headers r \<and>
   SecurityHeadersMiddleware_dispatch req
       (\<lambda>rq. SecurityHeadersMiddleware_dispatch rq call_next) h
     = SecurityHeadersMiddleware_dispatch req call_next h"
proof -
  have idem: "add_security_headers (add_security_headers x) = add_security_headers x" for x
    by (simp add: add_security_headers_def foldl_setitem_idem [OF security_headers_distinct])
  show ?thesis
    by (auto simp: idem SecurityHeadersMiddleware_dispatch_def split: prod.splits sum.splits)
qed

section \<open>Properties of the exception handler\<close>

lemma handle_exception_unknown:
  "unknown_error exc \<Longrightarrow>
   handle_exception cfg py_str py_field exc req = handle_unknown_error cfg py_str py_field exc req"
  by (cases exc) simp_all

text \<open>A message without braces is logged as it is.\<close>

lemma format_scan_plain:
  "CHR ''{'' \<notin> set s \<Longrightarrow> CHR ''}'' \<notin> set s \<Longrightarrow> format_scan py_field kwargs Literal field s = None"
  by (induction s arbitrary: field rule: induct_list012) auto

lemma logger_log_plain:
  "CHR ''{'' \<notin> set s \<Longrightarrow> CHR ''}'' \<notin> set s \<Longrightarrow> logger_log py_field s kwargs = None"
  by (simp add: logger_log_def format_scan_plain)

text \<open>
  An exception raised by the rest of the application that is not an \<open>AppException\<close>, a
  pydantic validation error or an \<open>SQLAlchemyError\<close>, and whose text holds no brace, yields
  one response: status 500, error code 5001, message "Internal server error", \<open>details\<close>
  null unless \<open>DEBUG\<close> is set, and \<open>trace_id\<close> the request id that the stages inside left in
  \<open>request.state\<close>, or null when there is none.
\<close>

theorem unknown_error_envelope:
  assumes "unknown_error exc" and "call_next req h = (Inl exc, state_request_id, h')"
    and "CHR ''{'' \<notin> set (str_exc py_str exc)" and "CHR ''}'' \<notin> set (str_exc py_str exc)"
  shows "ExceptionHandlerMiddleware_dispatch cfg py_str py_field req call_next h =
           (Inr \<lparr>status_code = 500, headers = [],
                 content = Json \<lparr>error_code = 5001, message = ''Internal server error'',
                                 details = (if DEBUG cfg then Some (Details_debug exc) else None),
                                 trace_id = state_request_id\<rparr>\<rparr>, h')"
proof -
  have "logger_log py_field (''Unhandled error: '' @ str_exc py_str exc) [''extra'', ''exc_info''] = None"
    using assms(3,4) by (intro logger_log_plain) simp_all
  then show ?thesis
    using assms(1,2)
    by (simp add: ExceptionHandlerMiddleware_dispatch_def handle_exception_unknown
        handle_unknown_error_def JSONResponse_def Let_def)
qed

theorem unknown_error_envelope_witness:
  "unknown_error (Exception ''RuntimeError'' ''boom'') \<and>
   CHR ''{'' \<notin> set (str_exc (\<lambda>e. []) (Exception ''RuntimeError'' ''boom'')) \<and>
   CHR ''}'' \<notin> set (str_exc (\<lambda>e. []) (Exception ''RuntimeError'' ''boom'')) \<and>
   ExceptionHandlerMiddleware_dispatch
       \<lparr>DEBUG = False, SECRET_KEY = ''k'', ACCESS_TOKEN_EXPIRE_MINUTES = 11520,
        REFRESH_TOKEN_EXPIRE_MINUTES = 43200\<rparr>
       (\<lambda>e. []) (\<lambda>f. None)
       \<lparr>http_method = ''GET'', path = ''/api/users/me'', client = Some ''10.0.0.1'',
        query_params = [], path_params_text = ''{}'', body_text = None,
        request_id = None\<rparr>
       (\<lambda>rq n. (Inl (Exception ''RuntimeError'' ''boom''), Some ''7c9e6679'', Suc n)) (0::nat)
     = (Inr \<lparr>status_code = 500, headers = [],
             content = Json \<lparr>error_code = 5001, message = ''Internal server error'',
                             details = None, trace_id = Some ''7c9e6679''\<rparr>\<rparr>, 1)"
  using unknown_error_envelope
    [where exc = "Exception ''RuntimeError'' ''boom''"
       and call_next = "\<lambda>rq n. (Inl (Exception ''RuntimeError'' ''boom''), Some ''7c9e6679'', Suc n)"
       and req = "\<lparr>http_method = ''GET'', path = ''/api/users/me'', client = Some ''10.0.0.1'',
          query_params = [], path_params_text = ''{}'', body_text = None,
          request_id = None\<rparr>"
       and h = "0::nat" and h' = "1::nat" and state_request_id = "Some ''7c9e6679''"
       and py_str = "\<lambda>e. []" and py_field = "\<lambda>f. None"
       and cfg = "\<lparr>DEBUG = False, SECRET_KEY = ''k'', ACCESS_TOKEN_EXPIRE_MINUTES = 11520,
          REFRESH_TOKEN_EXPIRE_MINUTES = 43200\<rparr>"]
  by simp


section \<open>Properties of the string conversions\<close>

lemma is_digit_digit_char: "d < 10 \<Longrightarrow> is_digit (digit_char d)"
  by (simp add: is_digit_def digit_char_def)

lemma digit_val_digit_char: "d < 10 \<Longrightarrow> digit_val (digit_char d) = d"
  by (simp add: digit_val_def digit_char_def)

lemma not_space_digit: "is_digit c \<Longrightarrow> \<not> is_space c"
  by (auto simp: is_digit_def is_space_def)

lemma digits_all_digit: "\<forall>c \<in> set (digits n). is_digit c"
  by (induction n rule: digits.induct) (subst digits.simps, auto simp: is_digit_digit_char)

lemma digits_nonempty: "digits n \<noteq> []"
  by (subst digits.simps) simp

lemma int_digits_snoc:
  "\<forall>c \<in> set xs. is_digit c \<Longrightarrow> is_digit d \<Longrightarrow>
   int_digits acc (xs @ [d]) = map_option (\<lambda>a. 10 * a + digit_val d) (int_digits acc xs)"
  by (induction acc xs rule: int_digits.induct) auto

lemma int_digits_digits: "int_digits 0 (digits n) = Some n"
proof (induction n rule: digits.induct)
  case (1 n)
  show ?case
  proof (cases "n < 10")
    case True
    then show ?thesis by (subst digits.simps) (simp add: is_digit_digit_char digit_val_digit_char)
  next
    case False
    with 1 have ih: "int_digits 0 (digits (n div 10)) = Some (n div 10)" by simp
    have "int_digits 0 (digits (n div 10) @ [digit_char (n mod 10)])
          = map_option (\<lambda>a. 10 * a + digit_val (digit_char (n mod 10))) (int_digits 0 (digits (n div 10)))"
      by (rule int_digits_snoc) (simp_all add: digits_all_digit is_digit_digit_char)
    with ih False show ?thesis
      by (subst digits.simps) (simp add: digit_val_digit_char)
  qed
qed

lemma parse_digits_zero:
  "\<forall>c \<in> set s. is_digit c \<Longrightarrow> s \<noteq> [] \<Longrightarrow> parse_digits s = int_digits 0 s"
  by (cases s; cases "tl s") (auto simp: parse_digits_def)

lemma parse_digits_digits: "parse_digits (digits n) = Some n"
  using parse_digits_zero [OF digits_all_digit digits_nonempty] int_digits_digits by simp

lemma dropWhile_hd_id: "s \<noteq> [] \<Longrightarrow> \<not> P (hd s) \<Longrightarrow> dropWhile P s = s"
  by (cases s) auto

lemma strip_id: "s \<noteq> [] \<Longrightarrow> \<not> is_space (hd s) \<Longrightarrow> \<not> is_space (last s) \<Longrightarrow> strip s = s"
  by (simp add: strip_def dropWhile_hd_id hd_rev)

lemma digits_ends: "is_digit (hd (digits n)) \<and> is_digit (last (digits n))"
  using digits_all_digit [of n] digits_nonempty [of n] by (simp add: hd_in_set last_in_set)

lemma strip_digits: "strip (digits n) = digits n"
  using digits_ends [of n] by (intro strip_id) (simp_all add: digits_nonempty not_space_digit)

lemma strip_minus_digits: "strip (CHR ''-'' # digits n) = CHR ''-'' # digits n"
proof (rule strip_id)
  show "\<not> is_space (hd (CHR ''-'' # digits n))" by (simp add: is_space_def)
  show "\<not> is_space (last (CHR ''-'' # digits n))"
    using digits_ends [of n] by (simp add: digits_nonempty not_space_digit)
qed simp

lemma py_int_plain:
  "strip s = c # cs \<Longrightarrow> c \<noteq> CHR ''-'' \<Longrightarrow> c \<noteq> CHR ''+'' \<Longrightarrow> parse_digits (c # cs) = Some n \<Longrightarrow>
   py_int s = Some (int n)"
  by (simp add: py_int_def)

lemma py_int_minus:
  "strip s = CHR ''-'' # cs \<Longrightarrow> parse_digits cs = Some n \<Longrightarrow> py_int s = Some (- int n)"
  by (simp add: py_int_def)

lemma py_int_str_int: "py_int (str_int i) = Some i"
proof (cases "i < 0")
  case True
  have "py_int (CHR ''-'' # digits (nat (- i))) = Some (- int (nat (- i)))"
    by (rule py_int_minus [OF strip_minus_digits parse_digits_digits])
  with True show ?thesis by (simp add: str_int_def)
next
  case False
  obtain c cs where d: "digits (nat i) = c # cs"
    using digits_nonempty [of "nat i"] by (cases "digits (nat i)") auto
  have "is_digit c" using digits_ends [of "nat i"] d by simp
  then have sign: "c \<noteq> CHR ''-''" "c \<noteq> CHR ''+''" by (auto simp: is_digit_def)
  have "py_int (digits (nat i)) = Some (int (nat i))"
  proof (rule py_int_plain [OF _ sign])
    show "strip (digits (nat i)) = c # cs" using strip_digits [of "nat i"] d by simp
    show "parse_digits (c # cs) = Some (nat i)" using parse_digits_digits [of "nat i"] d by simp
  qed
  with False show ?thesis by (simp add: str_int_def)
qed

lemma str_int_inj:
  assumes "str_int a = str_int b"
  shows "a = b"
proof -
  have "py_int (str_int a) = py_int (str_int b)" by (rule arg_cong [OF assms])
  then show ?thesis by (simp only: py_int_str_int option.inject)
qed

lemma str_int_60: "str_int 60 = ''60''"
  by code_simp

lemma str_int_100: "str_int 100 = ''100''"
  by code_simp

section \<open>Properties of one rate-limit check\<close>


lemma zadd_zsets:
  "zsets (zadd db key m sc) key =
     (if m \<in> fst ` set (zsets db key)
      then map (\<lambda>(m', s). if m' = m then (m', sc) else (m', s)) (zsets db key)
      else zsets db key @ [(m, sc)])"
  by (simp add: zadd_def Let_def)

lemma zadd_member: "(m, sc) \<in> set (zsets (zadd db key m sc) key)"
  by (force simp: zadd_zsets)




section \<open>Properties of a sequence of rate-limit checks\<close>

lemma filter_above_twice:
  "(y::int) \<le> x \<Longrightarrow> filter (\<lambda>s. x < s) (filter (\<lambda>s. y < s) l) = filter (\<lambda>s. x < s) l"
  by (induction l) auto

lemma window_size_check [simp]:
  "window_size (snd (check_rate_limit self key limit t)) = window_size self"
  by (cases "redis_client self") (simp_all add: check_rate_limit_def Let_def)

lemma redis_client_check [simp]:
  "redis_client (snd (check_rate_limit self key limit t)) = None \<longleftrightarrow> redis_client self = None"
  by (cases "redis_client self") (simp_all add: check_rate_limit_def Let_def)

lemma allowed_iff_count:
  "fst (fst (check_rate_limit self key limit t)) = (snd (fst (check_rate_limit self key limit t)) \<le> limit)"
  by (cases "redis_client self") (simp_all add: check_rate_limit_def Let_def)

lemma tracks_step_memory:
  assumes tr: "tracks self key hist t0" and le: "t0 \<le> t" and mem: "redis_client self = None"
  shows "tracks (snd (check_rate_limit self key limit t)) key (hist @ [t]) t"
    and "1 + int (length (filter (\<lambda>h. t - window_size self < h) hist))
           \<le> snd (fst (check_rate_limit self key limit t))"
proof -
  define w where "w = window_size self"
  define stored where "stored = (case requests self key of None \<Rightarrow> [] | Some l \<Rightarrow> l)"
  define kept where "kept = filter (\<lambda>ts. t - w < ts) stored @ [t]"
  have res: "check_rate_limit self key limit t =
      ((int (length kept) \<le> limit, int (length kept)), self\<lparr>requests := (requests self)(key \<mapsto> kept)\<rparr>)"
    using mem by (simp add: check_rate_limit_def Let_def kept_def stored_def w_def)
  from tr mem have bound: "\<forall>h \<in> set hist. h \<le> t0"
    and inv: "\<And>x. t0 - w \<le> x \<Longrightarrow> length (filter (\<lambda>s. x < s) hist) \<le> length (filter (\<lambda>s. x < s) stored)"
    by (simp_all add: tracks_def w_def stored_def)
  have "length (filter (\<lambda>s. t - w < s) hist) \<le> length (filter (\<lambda>s. t - w < s) stored)"
    using inv [of "t - w"] le by simp
  then show "1 + int (length (filter (\<lambda>h. t - window_size self < h) hist))
           \<le> snd (fst (check_rate_limit self key limit t))"
    by (simp add: res kept_def w_def)
  have "length (filter (\<lambda>s. x < s) (hist @ [t])) \<le> length (filter (\<lambda>s. x < s) kept)"
    if "t - w \<le> x" for x
  proof -
    have "filter (\<lambda>s. x < s) (filter (\<lambda>ts. t - w < ts) stored) = filter (\<lambda>s. x < s) stored"
      using that by (rule filter_above_twice)
    moreover have "length (filter (\<lambda>s. x < s) hist) \<le> length (filter (\<lambda>s. x < s) stored)"
      using inv [of x] that le by simp
    ultimately show ?thesis by (simp add: kept_def)
  qed
  then show "tracks (snd (check_rate_limit self key limit t)) key (hist @ [t]) t"
    using bound le mem by (auto simp: tracks_def res w_def)
qed

lemma zadd_distinct:
  assumes "distinct (map fst (zsets db key))"
  shows "distinct (map fst (zsets (zadd db key m sc) key))"
proof (cases "m \<in> fst ` set (zsets db key)")
  case True
  have eq: "map fst (map (\<lambda>(m', s). if m' = m then (m', sc) else (m', s)) z) = map fst z" for z :: zset
    by (induction z) auto
  have "zsets (zadd db key m sc) key
          = map (\<lambda>(m', s). if m' = m then (m', sc) else (m', s)) (zsets db key)"
    using True by (simp add: zadd_zsets)
  then show ?thesis using assms by (simp only: eq)
next
  case False
  then have "map fst (zsets (zadd db key m sc) key) = map fst (zsets db key) @ [m]"
    by (simp add: zadd_zsets)
  moreover have "m \<notin> set (map fst (zsets db key))" using False by simp
  ultimately show ?thesis using assms by simp
qed

lemma zadd_keeps:
  "(m', s') \<in> set (zsets db key) \<Longrightarrow> m' \<noteq> m \<Longrightarrow> (m', s') \<in> set (zsets (zadd db key m sc) key)"
  by (force simp: zadd_zsets)

lemma redis_at_zsets:
  "zsets (redis_at now key db) key = zsets db key \<or> zsets (redis_at now key db) key = []"
  by (simp add: redis_at_def split: option.splits)

lemma distinct_subset_length:
  assumes "distinct xs" and "set xs \<subseteq> set ys"
  shows "length xs \<le> length ys"
proof -
  have "length xs = card (set xs)" using assms(1) by (simp add: distinct_card)
  also have "\<dots> \<le> card (set ys)" using assms(2) by (simp add: card_mono)
  also have "\<dots> \<le> length ys" by (rule card_length)
  finally show ?thesis .
qed

lemma tracks_step_redis:
  assumes tr: "tracks self key hist t0" and lt: "t0 < t" and red: "redis_client self = Some db0"
  shows "tracks (snd (check_rate_limit self key limit t)) key (hist @ [t]) t"
    and "1 + int (length (filter (\<lambda>h. t - window_size self < h) hist))
           \<le> snd (fst (check_rate_limit self key limit t))"
proof -
  define w where "w = window_size self"
  define z0 where "z0 = zsets (redis_at t key db0) key"
  define db1 where "db1 = zremrangebyscore (redis_at t key db0) key 0 (t - w)"
  define db2 where "db2 = zadd db1 key (str_int t) t"
  define z2 where "z2 = zsets db2 key"
  define db3 where "db3 = expire db2 key w t"
  have res: "check_rate_limit self key limit t =
      ((zcard db2 key \<le> limit, zcard db2 key), self\<lparr>redis_client := Some db3\<rparr>)"
    using red by (simp add: check_rate_limit_def Let_def db1_def db2_def db3_def w_def)
  from tr red have bound: "\<forall>h \<in> set hist. h \<le> t0" and dist: "distinct hist"
    and dz: "distinct (map fst (zsets db0 key))"
    and inv: "\<And>t' h. t0 \<le> t' \<Longrightarrow> h \<in> set hist \<Longrightarrow> t' - w < h \<Longrightarrow>
                (str_int h, h) \<in> set (zsets (redis_at t' key db0) key)"
    by (simp_all add: tracks_def w_def)
  have fresh: "t \<notin> set hist" using bound lt by auto
  have z1: "zsets db1 key = filter (\<lambda>(m, s). \<not> (0 \<le> s \<and> s \<le> t - w)) z0"
    by (simp add: db1_def zremrangebyscore_def z0_def)
  have "distinct (map fst z0)"
    using redis_at_zsets [of t key db0] dz by (auto simp: z0_def)
  then have "distinct (map fst (zsets db1 key))" by (simp add: z1 distinct_map_filter)
  then have dz2: "distinct (map fst z2)" unfolding z2_def db2_def by (rule zadd_distinct)
  have new: "(str_int t, t) \<in> set z2" unfolding z2_def db2_def by (rule zadd_member)
  have old: "(str_int h, h) \<in> set z2" if "h \<in> set hist" and "t - w < h" for h
  proof -
    have "(str_int h, h) \<in> set z0" using inv [of t h] that lt by (simp add: z0_def)
    then have "(str_int h, h) \<in> set (zsets db1 key)" using that by (simp add: z1)
    moreover have "str_int h \<noteq> str_int t" using that fresh str_int_inj [of h t] by auto
    ultimately show ?thesis unfolding z2_def db2_def by (rule zadd_keeps)
  qed
  define L where "L = map (\<lambda>h. (str_int h, h)) (filter (\<lambda>h. t - w < h) hist) @ [(str_int t, t)]"
  have "distinct L"
    using dist fresh by (auto simp: L_def distinct_map inj_on_def)
  moreover have "set L \<subseteq> set z2" using new old by (auto simp: L_def)
  ultimately have "length L \<le> length z2" by (rule distinct_subset_length)
  then show "1 + int (length (filter (\<lambda>h. t - window_size self < h) hist))
           \<le> snd (fst (check_rate_limit self key limit t))"
    by (simp add: res zcard_def z2_def [symmetric] L_def w_def)
  have dz3: "distinct (map fst (zsets db3 key))"
    using dz2 by (simp add: db3_def expire_def z2_def)
  have cover: "(str_int h, h) \<in> set (zsets (redis_at t' key db3) key)"
    if "t \<le> t'" and "h \<in> set (hist @ [t])" and "t' - w < h" for t' h
  proof -
    have "h \<le> t" using that(2) bound lt by auto
    with that have pos: "0 < w" and alive: "t' < t + w" by auto
    then have "zsets (redis_at t' key db3) key = z2"
      by (simp add: db3_def expire_def redis_at_def z2_def)
    moreover have "(str_int h, h) \<in> set z2"
    proof (cases "h = t")
      case True
      then show ?thesis using new by simp
    next
      case False
      with that have "h \<in> set hist" "t - w < h" by auto
      then show ?thesis by (rule old)
    qed
    ultimately show ?thesis by simp
  qed
  have bound': "\<forall>h\<in>set (hist @ [t]). h \<le> t" using bound lt by auto
  have dist': "distinct (hist @ [t])" using dist fresh by simp
  have cover': "\<forall>t' h. t \<le> t' \<longrightarrow> h \<in> set (hist @ [t]) \<longrightarrow> t' - w < h \<longrightarrow>
                 (str_int h, h) \<in> set (zsets (redis_at t' key db3) key)"
    using cover by blast
  show "tracks (snd (check_rate_limit self key limit t)) key (hist @ [t]) t"
    unfolding tracks_def res using bound' dist' dz3 cover' by (simp add: w_def)
qed

lemma tracks_step:
  assumes "tracks self key hist t0" and "t0 \<le> t" and "redis_client self \<noteq> None \<Longrightarrow> t0 < t"
  shows "tracks (snd (check_rate_limit self key limit t)) key (hist @ [t]) t"
    and "1 + int (length (filter (\<lambda>h. t - window_size self < h) hist))
           \<le> snd (fst (check_rate_limit self key limit t))"
proof -
  show "tracks (snd (check_rate_limit self key limit t)) key (hist @ [t]) t"
  proof (cases "redis_client self")
    case None
    with assms(1,2) show ?thesis by (rule tracks_step_memory(1))
  next
    case (Some db0)
    then have "t0 < t" using assms(3) by simp
    with assms(1) show ?thesis using Some by (rule tracks_step_redis(1))
  qed
  show "1 + int (length (filter (\<lambda>h. t - window_size self < h) hist))
           \<le> snd (fst (check_rate_limit self key limit t))"
  proof (cases "redis_client self")
    case None
    with assms(1,2) show ?thesis by (rule tracks_step_memory(2))
  next
    case (Some db0)
    then have "t0 < t" using assms(3) by simp
    with assms(1) show ?thesis using Some by (rule tracks_step_redis(2))
  qed
qed

lemma check_sequence_Cons:
  "check_sequence self key limit (a # ts) =
     (a, fst (fst (check_rate_limit self key limit a)))
       # check_sequence (snd (check_rate_limit self key limit a)) key limit ts"
  by (simp split: prod.splits)

lemma permitted_count:
  assumes "tracks self key hist t0" and "sorted (t0 # ts)"
    and "redis_client self \<noteq> None \<Longrightarrow> distinct (t0 # ts)"
    and "check_sequence self key limit ts = R1 @ (t, True) # R2"
  shows "1 + int (length (filter (\<lambda>h. t - window_size self < h) (hist @ map fst R1))) \<le> limit"
  using assms
proof (induction ts arbitrary: self hist t0 R1)
  case Nil
  then show ?case by simp
next
  case (Cons a ts)
  define self' where "self' = snd (check_rate_limit self key limit a)"
  from Cons.prems(2) have le: "t0 \<le> a" and sorted': "sorted (a # ts)" by auto
  have lt: "t0 < a" if "redis_client self \<noteq> None"
    using Cons.prems(3) [OF that] le by auto
  have distinct': "distinct (a # ts)" if "redis_client self' \<noteq> None"
    using Cons.prems(3) that by (simp add: self'_def)
  have step: "tracks self' key (hist @ [a]) a"
    and count: "1 + int (length (filter (\<lambda>h. a - window_size self < h) hist))
                  \<le> snd (fst (check_rate_limit self key limit a))"
    using tracks_step [OF Cons.prems(1) le lt] by (simp_all add: self'_def)
  from Cons.prems(4) have seq:
    "(a, fst (fst (check_rate_limit self key limit a))) # check_sequence self' key limit ts
       = R1 @ (t, True) # R2"
    by (simp only: check_sequence_Cons self'_def)
  show ?case
  proof (cases R1)
    case Nil
    with seq have "t = a" and "fst (fst (check_rate_limit self key limit a))" by auto
    then have "snd (fst (check_rate_limit self key limit a)) \<le> limit"
      using allowed_iff_count [of self key limit a] by simp
    with count Nil \<open>t = a\<close> show ?thesis by simp
  next
    case (Cons x R1')
    with seq have x: "fst x = a" and rest: "check_sequence self' key limit ts = R1' @ (t, True) # R2"
      by auto
    have "1 + int (length (filter (\<lambda>h. t - window_size self' < h) ((hist @ [a]) @ map fst R1'))) \<le> limit"
      by (rule Cons.IH [OF step sorted' distinct' rest])
    then show ?thesis using Cons x by (simp add: self'_def)
  qed
qed

lemma length_filter_mono:
  "(\<And>x. x \<in> set xs \<Longrightarrow> P x \<Longrightarrow> Q x) \<Longrightarrow> length (filter P xs) \<le> length (filter Q xs)"
  by (induction xs) auto

lemma slice_bound:
  fixes R :: "(int \<times> bool) list"
  assumes "\<And>R1 t R2. R = R1 @ (t, True) # R2 \<Longrightarrow>
             1 + int (length (filter (\<lambda>h. t - w < h) (map fst R1))) \<le> limit"
    and "0 \<le> limit"
  shows "int (length (filter (\<lambda>(t, ok). ok \<and> T - w < t \<and> t \<le> T) R)) \<le> limit"
  using assms(1)
proof (induction R rule: rev_induct)
  case Nil
  then show ?case using assms(2) by simp
next
  case (snoc x R)
  obtain t ok where x: "x = (t, ok)" by (cases x)
  have ih: "int (length (filter (\<lambda>(t, ok). ok \<and> T - w < t \<and> t \<le> T) R)) \<le> limit"
  proof (rule snoc.IH)
    fix R1 t' R2
    assume "R = R1 @ (t', True) # R2"
    then have "R @ [x] = R1 @ (t', True) # (R2 @ [x])" by simp
    then show "1 + int (length (filter (\<lambda>h. t' - w < h) (map fst R1))) \<le> limit"
      by (rule snoc.prems)
  qed
  show ?case
  proof (cases "ok \<and> T - w < t \<and> t \<le> T")
    case False
    with ih x show ?thesis by auto
  next
    case True
    then have "R @ [x] = R @ (t, True) # []" using x by simp
    then have last: "1 + int (length (filter (\<lambda>h. t - w < h) (map fst R))) \<le> limit"
      by (rule snoc.prems)
    have "length (filter (\<lambda>(t, ok). ok \<and> T - w < t \<and> t \<le> T) R)
            \<le> length (filter (\<lambda>p. t - w < fst p) R)"
    proof (rule length_filter_mono)
      fix p
      assume "case p of (t, ok) \<Rightarrow> ok \<and> T - w < t \<and> t \<le> T"
      then have "T - w < fst p" by (cases p) simp
      with True show "t - w < fst p" by linarith
    qed
    also have "\<dots> = length (filter (\<lambda>h. t - w < h) (map fst R))"
      by (simp add: filter_map comp_def)
    finally show ?thesis using last True x by simp
  qed
qed

text \<open>
  Claim C1, as stated, fails in two places. A slice of \<open>window\<close> seconds that includes both
  of its ends can hold more permitted calls than the limit, because a call exactly
  \<open>window\<close> seconds old is no longer counted: in memory, with a window of 60 and a limit
  of 1, the calls at 0 and 60 are both permitted, two in the slice from 0 to 60. And the
  timestamps are whole seconds (\<open>int(time.time())\<close>), so calls at increasing times can
  share one: on the Redis store three calls in second 100, with a limit of 1, are all
  permitted.
\<close>

theorem rate_limit_window_counterexample:
  "check_sequence
       \<lparr>redis_client = None, rate_limit = 1, rate_limit_by_path = Map.empty, window_size = 60,
        exclude_paths = {}, requests = Map.empty\<rparr> ''k'' 1 [0, 60]
     = [(0, True), (60, True)] \<and>
   \<not> int (length (filter (\<lambda>(t, ok). ok \<and> 60 - 60 \<le> t \<and> t \<le> 60)
                     (check_sequence
                        \<lparr>redis_client = None, rate_limit = 1, rate_limit_by_path = Map.empty,
                         window_size = 60, exclude_paths = {}, requests = Map.empty\<rparr>
                        ''k'' 1 [0, 60]))) \<le> 1 \<and>
   check_sequence
       \<lparr>redis_client = Some \<lparr>zsets = (\<lambda>k. []), ttl = Map.empty\<rparr>, rate_limit = 1,
        rate_limit_by_path = Map.empty, window_size = 60, exclude_paths = {},
        requests = Map.empty\<rparr> ''k'' 1 [100, 100, 100]
     = [(100, True), (100, True), (100, True)] \<and>
   \<not> int (length (filter (\<lambda>(t, ok). ok \<and> 100 - 60 < t \<and> t \<le> 100)
                     (check_sequence
                        \<lparr>redis_client = Some \<lparr>zsets = (\<lambda>k. []), ttl = Map.empty\<rparr>, rate_limit = 1,
                         rate_limit_by_path = Map.empty, window_size = 60, exclude_paths = {},
                         requests = Map.empty\<rparr> ''k'' 1 [100, 100, 100]))) \<le> 1"
  by (simp add: check_rate_limit_def Let_def redis_at_def zremrangebyscore_def zadd_def
      zcard_def expire_def str_int_100 del: set_filter)

text \<open>
  Claim C1, amended. For calls with one key and one limit (not negative) at timestamps
  that do not decrease, whatever the store holds at the start: in every slice
  \<open>(T - window_size, T]\<close>, open at its older end, the number of permitted calls is at most
  the limit. On a Redis sorted set (its members distinct) this holds when no two calls
  share a second; on the in-memory store calls may share one.
\<close>

theorem rate_limit_window_bound:
  assumes "sorted ts" and "0 \<le> limit"
    and "\<forall>db. redis_client self = Some db \<longrightarrow> distinct ts \<and> distinct (map fst (zsets db key))"
  shows "int (length (filter (\<lambda>(t, ok). ok \<and> T - window_size self < t \<and> t \<le> T)
                        (check_sequence self key limit ts))) \<le> limit"
proof (cases ts)
  case Nil
  with assms(2) show ?thesis by simp
next
  case (Cons a ts')
  have start: "tracks self key [] (a - 1)"
    using assms(3) by (simp add: tracks_def split: option.splits)
  have low: "\<forall>x \<in> set ts. a \<le> x" using assms(1) Cons by auto
  then have sorted: "sorted ((a - 1) # ts)" using assms(1) by fastforce
  have distinct: "distinct ((a - 1) # ts)" if "redis_client self \<noteq> None"
    using that assms(3) low by fastforce
  show ?thesis
  proof (rule slice_bound [OF _ assms(2)])
    fix R1 t R2
    assume "check_sequence self key limit ts = R1 @ (t, True) # R2"
    from permitted_count [OF start sorted distinct this]
    show "1 + int (length (filter (\<lambda>h. t - window_size self < h) (map fst R1))) \<le> limit"
      by simp
  qed
qed

theorem rate_limit_window_bound_witness:
  "sorted [0, 10, 20, 75, 90 :: int] \<and> (0::int) \<le> 2 \<and>
   distinct [0, 10, 20, 75, 90 :: int] \<and> distinct (map fst ([] :: zset)) \<and>
   int (length (filter (\<lambda>(t, ok). ok \<and> 90 - 60 < t \<and> t \<le> 90)
                  (check_sequence
                     \<lparr>redis_client = Some \<lparr>zsets = (\<lambda>k. []), ttl = Map.empty\<rparr>, rate_limit = 2,
                      rate_limit_by_path = Map.empty, window_size = 60, exclude_paths = {},
                      requests = Map.empty\<rparr> ''k'' 2 [0, 10, 20, 75, 90]))) \<le> 2 \<and>
   sorted [0, 10, 10, 10, 75 :: int] \<and>
   redis_client \<lparr>redis_client = None, rate_limit = 2, rate_limit_by_path = Map.empty,
                 window_size = 60, exclude_paths = {}, requests = Map.empty\<rparr> = None \<and>
   int (length (filter (\<lambda>(t, ok). ok \<and> 60 - 60 < t \<and> t \<le> 60)
                  (check_sequence
                     \<lparr>redis_client = None, rate_limit = 2, rate_limit_by_path = Map.empty,
                      window_size = 60, exclude_paths = {}, requests = Map.empty\<rparr>
                     ''k'' 2 [0, 10, 10, 10, 75]))) \<le> 2"
  using rate_limit_window_bound
    [where ts = "[0, 10, 20, 75, 90]" and limit = 2 and key = "''k''" and T = 90
       and self = "\<lparr>redis_client = Some \<lparr>zsets = (\<lambda>k. []), ttl = Map.empty\<rparr>, rate_limit = 2,
                      rate_limit_by_path = Map.empty, window_size = 60, exclude_paths = {},
                      requests = Map.empty\<rparr>"]
    rate_limit_window_bound
    [where ts = "[0, 10, 10, 10, 75]" and limit = 2 and key = "''k''" and T = 60
       and self = "\<lparr>redis_client = None, rate_limit = 2, rate_limit_by_path = Map.empty,
                      window_size = 60, exclude_paths = {}, requests = Map.empty\<rparr>"]
  by simp

section \<open>Properties of the rate-limiting middleware\<close>

lemma lower_retry_after: "lower ''Retry-After'' = ''retry-after''"
  by code_simp

text \<open>
  Claim C6 fails on the Redis branch. With a limit of 1 and a window of 60, two requests
  of one client to one path in the same second: the second is the (limit+1)-th of a
  fresh window, yet it reaches the rest of the application (which has then run twice),
  because the member added to the sorted set is the second itself (\<open>str(current_time)\<close>)
  and both calls share it. The in-memory branch answers the same second request with
  status 429 and \<open>Retry-After: 60\<close>, and the rest of the application has run once.
\<close>

theorem redis_same_second_not_rejected:
  "(case RateLimitingMiddleware_dispatch
           \<lparr>redis_client = Some \<lparr>zsets = (\<lambda>k. []), ttl = Map.empty\<rparr>, rate_limit = 1,
            rate_limit_by_path = Map.empty, window_size = 60,
            exclude_paths = {''/health'', ''/metrics''}, requests = Map.empty\<rparr>
           \<lparr>http_method = ''POST'', path = ''/api/auth/login'', client = Some ''10.0.0.1'',
            query_params = [], path_params_text = ''{}'', body_text = None, request_id = None\<rparr>
           (\<lambda>r n. (Inr (Response ''ok'' 200 []), Suc n)) 1700000000 (0::nat) of
      (r1, self1, h1) \<Rightarrow>
        (case RateLimitingMiddleware_dispatch self1
           \<lparr>http_method = ''POST'', path = ''/api/auth/login'', client = Some ''10.0.0.1'',
            query_params = [], path_params_text = ''{}'', body_text = None, request_id = None\<rparr>
           (\<lambda>r n. (Inr (Response ''ok'' 200 []), Suc n)) 1700000000 h1 of
          (r2, self2, h2) \<Rightarrow> (r1, r2, h2)))
     = (Inr (Response ''ok'' 200 []), Inr (Response ''ok'' 200 []), 2) \<and>
   (case RateLimitingMiddleware_dispatch
           \<lparr>redis_client = None, rate_limit = 1,
            rate_limit_by_path = Map.empty, window_size = 60,
            exclude_paths = {''/health'', ''/metrics''}, requests = Map.empty\<rparr>
           \<lparr>http_method = ''POST'', path = ''/api/auth/login'', client = Some ''10.0.0.1'',
            query_params = [], path_params_text = ''{}'', body_text = None, request_id = None\<rparr>
           (\<lambda>r n. (Inr (Response ''ok'' 200 []), Suc n)) 1700000000 (0::nat) of
      (r1, self1, h1) \<Rightarrow>
        (case RateLimitingMiddleware_dispatch self1
           \<lparr>http_method = ''POST'', path = ''/api/auth/login'', client = Some ''10.0.0.1'',
            query_params = [], path_params_text = ''{}'', body_text = None, request_id = None\<rparr>
           (\<lambda>r n. (Inr (Response ''ok'' 200 []), Suc n)) 1700000000 h1 of
          (r2, self2, h2) \<Rightarrow> (r1, r2, h2)))
     = (Inr (Response ''ok'' 200 []),
        Inr \<lparr>status_code = 429, headers = [(''retry-after'', ''60'')],
             content = Text ''Too Many Requests''\<rparr>, 1)"
  by (simp add: RateLimitingMiddleware_dispatch_def check_rate_limit_def get_rate_limit_def
      redis_at_def zremrangebyscore_def zadd_def zcard_def expire_def Let_def
      Response_def lower_retry_after str_int_60 del: set_filter)


lemma check_sequence_memory_window:
  assumes "redis_client self = None"
    and "requests self key = Some l"
    and "\<forall>t \<in> set ts. \<forall>x \<in> set (l @ ts). t - window_size self < x"
  shows "check_sequence self key limit ts
           = map (\<lambda>(k, t). (t, int (Suc k) \<le> limit)) (enumerate (length l) ts)"
  using assms
proof (induction ts arbitrary: self l)
  case Nil
  then show ?case by simp
next
  case (Cons a ts)
  have keep: "filter (\<lambda>ts. a - window_size self < ts) l = l"
    using Cons.prems(3) by (auto simp: filter_id_conv)
  define self' where "self' = self\<lparr>requests := (requests self)(key \<mapsto> l @ [a])\<rparr>"
  have res: "check_rate_limit self key limit a
               = ((int (Suc (length l)) \<le> limit, int (Suc (length l))), self')"
    using Cons.prems(1,2) keep by (simp add: check_rate_limit_def Let_def self'_def)
  have "check_sequence self' key limit ts
          = map (\<lambda>(k, t). (t, int (Suc k) \<le> limit)) (enumerate (length (l @ [a])) ts)"
  proof (rule Cons.IH)
    show "redis_client self' = None" using Cons.prems(1) by (simp add: self'_def)
    show "requests self' key = Some (l @ [a])" by (simp add: self'_def)
    show "\<forall>t \<in> set ts. \<forall>x \<in> set ((l @ [a]) @ ts). t - window_size self' < x"
      using Cons.prems(3) by (auto simp: self'_def)
  qed
  then show ?case by (simp add: res)
qed

text \<open>
  On the in-memory store, for calls that all lie within one window of each other and
  start from a key with no recorded entry, the k-th call is permitted iff \<open>k \<le> limit\<close>:
  the limit-th call is permitted and the (limit+1)-th is rejected.
\<close>

theorem memory_fresh_window:
  assumes "redis_client self = None"
    and "requests self key = None"
    and "\<forall>t \<in> set ts. \<forall>x \<in> set ts. t - window_size self < x"
  shows "check_sequence self key limit ts
           = map (\<lambda>(k, t). (t, int (Suc k) \<le> limit)) (enumerate 0 ts)"
proof (cases ts)
  case Nil
  then show ?thesis by simp
next
  case (Cons a ts')
  define self' where "self' = self\<lparr>requests := (requests self)(key \<mapsto> [a])\<rparr>"
  have res: "check_rate_limit self key limit a = ((1 \<le> limit, 1), self')"
    using assms(1,2) by (simp add: check_rate_limit_def Let_def self'_def)
  have "check_sequence self' key limit ts'
          = map (\<lambda>(k, t). (t, int (Suc k) \<le> limit)) (enumerate (length [a]) ts')"
  proof (rule check_sequence_memory_window)
    show "redis_client self' = None" using assms(1) by (simp add: self'_def)
    show "requests self' key = Some [a]" by (simp add: self'_def)
    show "\<forall>t \<in> set ts'. \<forall>x \<in> set ([a] @ ts'). t - window_size self' < x"
      using assms(3) Cons by (auto simp: self'_def)
  qed
  then show ?thesis using Cons by (simp add: res)
qed

theorem memory_fresh_window_witness:
  "(\<forall>t \<in> set [100, 100, 130 :: int]. \<forall>x \<in> set [100, 100, 130]. t - 60 < x) \<and>
   check_sequence
       \<lparr>redis_client = None, rate_limit = 2, rate_limit_by_path = Map.empty, window_size = 60,
        exclude_paths = {}, requests = Map.empty\<rparr> ''k'' 2 [100, 100, 130]
     = [(100, True), (100, True), (130, False)]"
  using memory_fresh_window
    [where self = "\<lparr>redis_client = None, rate_limit = 2, rate_limit_by_path = Map.empty,
                    window_size = 60, exclude_paths = {}, requests = Map.empty\<rparr>"
       and key = "''k''" and limit = 2 and ts = "[100, 100, 130]"]
  by (simp add: enumerate_eq_zip)


text \<open>
  A call that the check rejects is answered with status 429 and a \<open>Retry-After\<close> header
  that holds the window size; the rest of the application is not run, whatever it is.
\<close>

theorem dispatch_rejection:
  assumes "path req \<notin> exclude_paths self"
    and "\<not> fst (fst (check_rate_limit self
                  (''rate_limit:'' @ (case client req of Some host \<Rightarrow> host | None \<Rightarrow> ''unknown'')
                     @ '':'' @ path req)
                  (get_rate_limit self (path req)) now))"
  shows "RateLimitingMiddleware_dispatch self req call_next now h =
           (Inr \<lparr>status_code = 429, headers = [(''retry-after'', str_int (window_size self))],
                 content = Text ''Too Many Requests''\<rparr>,
            snd (check_rate_limit self
                  (''rate_limit:'' @ (case client req of Some host \<Rightarrow> host | None \<Rightarrow> ''unknown'')
                     @ '':'' @ path req)
                  (get_rate_limit self (path req)) now),
            h)"
proof -
  let ?k = "''rate_limit:'' @ (case client req of Some host \<Rightarrow> host | None \<Rightarrow> ''unknown'')
              @ '':'' @ path req"
  obtain ok c self' where r: "check_rate_limit self ?k (get_rate_limit self (path req)) now = ((ok, c), self')"
    by (metis surj_pair)
  have "window_size (snd (check_rate_limit self ?k (get_rate_limit self (path req)) now)) = window_size self"
    by (cases "redis_client self") (simp_all add: check_rate_limit_def Let_def)
  with r have w: "window_size self' = window_size self" by simp
  from assms(2) r have "\<not> ok" by simp
  with assms(1) r w show ?thesis
    by (simp add: RateLimitingMiddleware_dispatch_def Let_def Response_def lower_retry_after)
qed

theorem dispatch_rejection_witness:
  "''/api/auth/login'' \<notin> {''/health'', ''/metrics''} \<and>
   RateLimitingMiddleware_dispatch
       \<lparr>redis_client = None, rate_limit = 100,
        rate_limit_by_path = [''/api/auth/login'' \<mapsto> 1], window_size = 60,
        exclude_paths = {''/health'', ''/metrics''},
        requests = [''rate_limit:unknown:/api/auth/login'' \<mapsto> [1700000000]]\<rparr>
       \<lparr>http_method = ''POST'', path = ''/api/auth/login'', client = None,
        query_params = [], path_params_text = ''{}'', body_text = None, request_id = None\<rparr>
       (\<lambda>r n. (Inl (Exception ''RuntimeError'' ''boom''), Suc n)) 1700000030 (0::nat)
     = (Inr \<lparr>status_code = 429, headers = [(''retry-after'', ''60'')],
             content = Text ''Too Many Requests''\<rparr>,
        \<lparr>redis_client = None, rate_limit = 100,
         rate_limit_by_path = [''/api/auth/login'' \<mapsto> 1], window_size = 60,
         exclude_paths = {''/health'', ''/metrics''},
         requests = [''rate_limit:unknown:/api/auth/login'' \<mapsto> [1700000000, 1700000030]]\<rparr>,
        0)"
  using dispatch_rejection
    [where self = "\<lparr>redis_client = None, rate_limit = 100,
        rate_limit_by_path = [''/api/auth/login'' \<mapsto> 1], window_size = 60,
        exclude_paths = {''/health'', ''/metrics''},
        requests = [''rate_limit:unknown:/api/auth/login'' \<mapsto> [1700000000]]\<rparr>"
       and req = "\<lparr>http_method = ''POST'', path = ''/api/auth/login'', client = None,
        query_params = [], path_params_text = ''{}'', body_text = None, request_id = None\<rparr>"
       and call_next = "\<lambda>r n. (Inl (Exception ''RuntimeError'' ''boom''), Suc n)"
       and now = 1700000030 and h = "0::nat"]
  by (simp add: check_rate_limit_def get_rate_limit_def Let_def str_int_60)

section \<open>Properties of the injection screen\<close>

lemma ends_Lit_at:
  "ends ic (Lit l) (pre @ l @ post) (length pre) = [length pre + length l]"
  by simp

lemma search_witness:
  "i \<le> length s \<Longrightarrow> ends (fst p) (snd p) s i \<noteq> [] \<Longrightarrow> search p s"
  unfolding search_def by (rule bexI [of _ i]) auto

lemma comment_pattern: "(True, alts [''--'', ''#'', ''/*'', ''*/'']) \<in> set sql_patterns"
  by (simp add: sql_patterns_def)

lemma comment_marker_flagged: "check_sql_injection (pre @ ''--'' @ post)"
proof -
  have "ends True (alts [''--'', ''#'', ''/*'', ''*/'']) (pre @ ''--'' @ post) (length pre) \<noteq> []"
    using ends_Lit_at [of True "''--''" pre post] by (simp add: alts_def)
  then have "search (True, alts [''--'', ''#'', ''/*'', ''*/'']) (pre @ ''--'' @ post)"
    by (intro search_witness [of "length pre"]) simp_all
  with comment_pattern show ?thesis unfolding check_sql_injection_def by blast
qed

lemma quote_plus_append: "quote_plus (a @ b) = quote_plus a @ quote_plus b"
  by (simp add: quote_plus_def)

lemma quote_char_dash: "quote_char (CHR ''-'') = ''-''"
  by code_simp

lemma quote_plus_dashes: "quote_plus (''--'' @ post) = ''--'' @ quote_plus post"
  by (simp add: quote_plus_def quote_char_dash)

lemma join_middle: "\<exists>a b. join sep (xs @ x # ys) = a @ x @ b"
proof (induction xs)
  case Nil
  show ?case
  proof (cases ys)
    case Nil
    then have "join sep ([] @ x # ys) = [] @ x @ []" by simp
    then show ?thesis by blast
  next
    case (Cons y ys')
    then have "join sep ([] @ x # ys) = [] @ x @ (sep @ join sep (y # ys'))" by simp
    then show ?thesis by blast
  qed
next
  case (Cons z xs)
  then obtain a b where ab: "join sep (xs @ x # ys) = a @ x @ b" by blast
  obtain u us where "xs @ x # ys = u # us" by (cases "xs @ x # ys") auto
  then have "join sep ((z # xs) @ x # ys) = z @ sep @ join sep (xs @ x # ys)" by simp
  with ab have "join sep ((z # xs) @ x # ys) = (z @ sep @ a) @ x @ b" by simp
  then show ?case by blast
qed

lemma urlencode_keeps_dashes:
  assumes "(k, v) \<in> set ps" and "v = pre @ ''--'' @ post"
  shows "\<exists>a b. urlencode ps = a @ ''--'' @ b"
proof -
  from assms(1) obtain ps1 ps2 where ps: "ps = ps1 @ (k, v) # ps2" by (auto simp: in_set_conv_decomp)
  let ?f = "\<lambda>(k, v). quote_plus k @ ''='' @ quote_plus v"
  obtain a b where "join ''&'' (map ?f ps1 @ ?f (k, v) # map ?f ps2) = a @ ?f (k, v) @ b"
    using join_middle by blast
  then have "urlencode ps = a @ (quote_plus k @ ''='' @ quote_plus pre @ ''--'' @ quote_plus post) @ b"
    using assms(2) ps quote_plus_dashes [of post]
    by (simp add: urlencode_def quote_plus_append)
  then have "urlencode ps = (a @ quote_plus k @ ''='' @ quote_plus pre) @ ''--'' @ (quote_plus post @ b)"
    by simp
  then show ?thesis by blast
qed

lemma tautology_has_dashes: "pre @ ''' OR 1=1 --'' @ post = (pre @ ''' OR 1=1 '') @ ''--'' @ post"
  by simp

text \<open>
  The screen flags every text that holds \<open>' OR 1=1 --\<close>, and the query string of every
  request one of whose query values holds it. With blocking enabled and a request that
  has a client address, \<open>dispatch\<close> answers 400 and the rest of the application is not
  run, whatever it is. The patterns are combined by \<open>any\<close>.
\<close>

theorem sql_injection_blocked:
  assumes "(k, v) \<in> set (query_params req)" and "v = pre @ ''' OR 1=1 --'' @ post"
    and "client req = Some host"
  shows "check_sql_injection v \<and>
         check_sql_injection (urlencode (query_params req)) \<and>
         SQLInjectionMiddleware_dispatch True req call_next h
           = (Inr \<lparr>status_code = 400, headers = [], content = Text ''Invalid request''\<rparr>, h) \<and>
         (check_sql_injection s \<longleftrightarrow> (\<exists>pattern \<in> set sql_patterns. search pattern s))"
proof (intro conjI)
  show "check_sql_injection v"
    unfolding assms(2) tautology_has_dashes by (rule comment_marker_flagged)
  have "v = (pre @ ''' OR 1=1 '') @ ''--'' @ post" using assms(2) by simp
  from urlencode_keeps_dashes [OF assms(1) this]
  show flagged: "check_sql_injection (urlencode (query_params req))"
    using comment_marker_flagged by auto
  then show "SQLInjectionMiddleware_dispatch True req call_next h
           = (Inr \<lparr>status_code = 400, headers = [], content = Text ''Invalid request''\<rparr>, h)"
    using assms(3)
    by (simp add: SQLInjectionMiddleware_dispatch_def get_request_data_def Response_def)
  show "check_sql_injection s \<longleftrightarrow> (\<exists>pattern \<in> set sql_patterns. search pattern s)"
    by (simp add: check_sql_injection_def)
qed

theorem sql_injection_blocked_witness:
  "(''q'', ''1' OR 1=1 -- '') \<in> set [(''page'', ''2''), (''q'', ''1' OR 1=1 -- '')] \<and>
   ''1' OR 1=1 -- '' = ''1'' @ ''' OR 1=1 --'' @ '' '' \<and>
   check_sql_injection (urlencode [(''page'', ''2''), (''q'', ''1' OR 1=1 -- '')]) \<and>
   SQLInjectionMiddleware_dispatch True
       \<lparr>http_method = ''GET'', path = ''/api/users'', client = Some ''10.0.0.1'',
        query_params = [(''page'', ''2''), (''q'', ''1' OR 1=1 -- '')],
        path_params_text = ''{}'', body_text = None, request_id = None\<rparr>
       (\<lambda>r n. (Inr (Response ''ok'' 200 []), Suc n)) (0::nat)
     = (Inr \<lparr>status_code = 400, headers = [], content = Text ''Invalid request''\<rparr>, 0)"
proof -
  let ?req = "\<lparr>http_method = ''GET'', path = ''/api/users'', client = Some ''10.0.0.1'',
        query_params = [(''page'', ''2''), (''q'', ''1' OR 1=1 -- '')],
        path_params_text = ''{}'', body_text = None, request_id = None\<rparr>"
  have h1: "(''q'', ''1' OR 1=1 -- '') \<in> set (query_params ?req)" by simp
  have h2: "''1' OR 1=1 -- '' = ''1'' @ ''' OR 1=1 --'' @ '' ''" by simp
  have h3: "client ?req = Some ''10.0.0.1''" by simp
  have q: "query_params ?req = [(''page'', ''2''), (''q'', ''1' OR 1=1 -- '')]" by simp
  note t0 = sql_injection_blocked [OF h1 h2 h3]
  note t = t0 [where call_next = "\<lambda>r n. (Inr (Response ''ok'' 200 []), Suc n)"
               and h = "0::nat" and s = "[]"]
  have a: "check_sql_injection (urlencode [(''page'', ''2''), (''q'', ''1' OR 1=1 -- '')])"
    using t unfolding q by (elim conjE)
  have b: "SQLInjectionMiddleware_dispatch True ?req
       (\<lambda>r n. (Inr (Response ''ok'' 200 []), Suc n)) (0::nat)
     = (Inr \<lparr>status_code = 400, headers = [], content = Text ''Invalid request''\<rparr>, 0)"
    using t by (elim conjE)
  have m: "(''q'', ''1' OR 1=1 -- '') \<in> set [(''page'', ''2''), (''q'', ''1' OR 1=1 -- '')]" by simp
  show ?thesis using m h2 a b by (intro conjI)
qed

lemma tautology_query_text:
  "urlencode [(''q'', ''' OR 1=1 --'')] = ''q=%27+OR+1%3D1+--''"
  by code_simp

lemma tautology_query_flagged: "check_sql_injection ''q=%27+OR+1%3D1+--''"
  using comment_marker_flagged [of "''q=%27+OR+1%3D1+''" "[]"] by simp

text \<open>
  Claim C7 fails for a request without a client address (\<open>request.client\<close> is \<open>None\<close>, as
  for a server on a Unix socket). The query \<open>q=' OR 1=1 --\<close> is flagged, and the log
  record of the match reads \<open>request.client.host\<close>: \<open>dispatch\<close> raises \<open>AttributeError\<close>
  where the claim says it answers 400. The same request with a client address is
  answered 400. In both cases the rest of the application is not run.
\<close>

theorem sql_injection_without_client_raises:
  "SQLInjectionMiddleware_dispatch True
       \<lparr>http_method = ''GET'', path = ''/api/users'', client = None,
        query_params = [(''q'', ''' OR 1=1 --'')],
        path_params_text = ''{}'', body_text = None, request_id = None\<rparr>
       (\<lambda>r n. (Inr (Response ''ok'' 200 []), Suc n)) (0::nat)
     = (Inl AttributeError, 0) \<and>
   SQLInjectionMiddleware_dispatch True
       \<lparr>http_method = ''GET'', path = ''/api/users'', client = Some ''10.0.0.1'',
        query_params = [(''q'', ''' OR 1=1 --'')],
        path_params_text = ''{}'', body_text = None, request_id = None\<rparr>
       (\<lambda>r n. (Inr (Response ''ok'' 200 []), Suc n)) (0::nat)
     = (Inr \<lparr>status_code = 400, headers = [], content = Text ''Invalid request''\<rparr>, 0)"
  by (simp add: SQLInjectionMiddleware_dispatch_def get_request_data_def Response_def
      tautology_query_text tautology_query_flagged)

section \<open>Properties of the tokens\<close>

lemma timegm_mono: "a \<le> b \<Longrightarrow> timegm a \<le> timegm b"
  by (simp add: timegm_def zdiv_mono1)


lemma jwt_encode_issued:
  "jwt_encode hmac [(''exp'', PyDatetime d), (''sub'', PyStr s)] key
     = Inr (JWT ''HS256'' [(''exp'', PyInt (timegm d)), (''sub'', PyStr s)]
              (hmac key (''HS256'', [(''exp'', PyInt (timegm d)), (''sub'', PyStr s)])))"
  by (simp add: jwt_encode_def encode_claim_def Let_def)

lemma create_access_token_given:
  "d \<noteq> 0 \<Longrightarrow> datetime_min \<le> t + d \<Longrightarrow> t + d \<le> datetime_max \<Longrightarrow>
   create_access_token hmac cfg t subj (Some d)
     = Inr (JWT ''HS256'' [(''exp'', PyInt (timegm (t + d))), (''sub'', PyStr (str_subject subj))]
              (hmac (SECRET_KEY cfg)
                 (''HS256'', [(''exp'', PyInt (timegm (t + d))), (''sub'', PyStr (str_subject subj))])))"
  by (simp add: create_access_token_def datetime_add_def Let_def jwt_encode_issued)

lemma create_refresh_token_given:
  "d \<noteq> 0 \<Longrightarrow> datetime_min \<le> t + d \<Longrightarrow> t + d \<le> datetime_max \<Longrightarrow>
   create_refresh_token hmac cfg t subj (Some d)
     = Inr (JWT ''HS256'' [(''exp'', PyInt (timegm (t + d))), (''sub'', PyStr (str_subject subj))]
              (hmac (SECRET_KEY cfg)
                 (''HS256'', [(''exp'', PyInt (timegm (t + d))), (''sub'', PyStr (str_subject subj))])))"
  by (simp add: create_refresh_token_def datetime_add_def Let_def jwt_encode_issued)

lemma validate_claims_issued:
  "validate_claims [(''exp'', PyInt e), (''sub'', PyStr s)] now
     = (if e < now then Inl ExpiredSignatureError else Inr ())"
  by (simp add: validate_claims_def validate_time_claim_def validate_string_claim_def
      validate_absent_def and_then_def)

lemma jwt_decode_issued:
  "jwt_decode hmac (JWT a [(''exp'', PyInt e), (''sub'', PyStr s)] sg) key utcnow
     = (if a = ''HS256'' \<and> sg = hmac key (a, [(''exp'', PyInt e), (''sub'', PyStr s)])
        then (if e < timegm utcnow then Inl ExpiredSignatureError
              else Inr [(''exp'', PyInt e), (''sub'', PyStr s)])
        else Inl JWTError)"
  by (simp add: jwt_decode_def validate_claims_issued)

lemma TokenPayload_issued:
  "TokenPayload parse_datetime [(''exp'', PyInt e), (''sub'', PyStr s)]
     = (case as_datetime parse_datetime (PyInt e) of
          None \<Rightarrow> Inl (PydanticValidationError [''exp''])
        | Some x \<Rightarrow> Inr \<lparr>sub = PyStr s, exp = x, iat = None, type = ''access'', jti = None\<rparr>)"
  by (simp add: TokenPayload_def Let_def missing_def split: option.splits)

lemma get_token_data_issued:
  "get_token_data hmac parse_datetime cfg (JWT a [(''exp'', PyInt e), (''sub'', PyStr s)] sg) utcnow
     = (if a = ''HS256'' \<and> sg = hmac (SECRET_KEY cfg) (a, [(''exp'', PyInt e), (''sub'', PyStr s)])
           \<and> timegm utcnow \<le> e
        then (case as_datetime parse_datetime (PyInt e) of
                None \<Rightarrow> Inl (PydanticValidationError [''exp''])
              | Some x \<Rightarrow> Inr \<lparr>sub = PyStr s, exp = x, iat = None, type = ''access'', jti = None\<rparr>)
        else Inl credentials_exception)"
  by (simp add: get_token_data_def jwt_decode_issued TokenPayload_issued split: option.splits)


text \<open>The expiry time of a token issued after the epoch is one that pydantic accepts.\<close>

lemma as_datetime_issued:
  assumes "0 \<le> d" and "d \<le> datetime_max"
  shows "\<exists>x. as_datetime parse_datetime (PyInt (timegm d)) = Some x"
proof -
  have "timegm 0 \<le> timegm d" and "timegm d \<le> timegm datetime_max"
    using assms by (simp_all only: timegm_mono)
  then have "0 \<le> timegm d" and "timegm d \<le> 253402300799"
    by (simp_all add: timegm_def datetime_max_def)
  then show ?thesis by (auto simp: Let_def)
qed

text \<open>
  Claim C3, as stated, fails for a time to live that leads beyond the last \<open>datetime\<close>: a
  token for \<open>alice\<close> with a time to live of 3650000 days, issued at second 1700000000,
  is not issued at all, because \<open>datetime.utcnow() + expires_delta\<close> raises
  \<open>OverflowError\<close>.
\<close>

theorem access_token_overflow_counterexample:
  "(0::int) < 315360000000000000 \<and>
   create_access_token (\<lambda>key msg. (key, msg))
       \<lparr>DEBUG = False, SECRET_KEY = ''s3cret'', ACCESS_TOKEN_EXPIRE_MINUTES = 11520,
        REFRESH_TOKEN_EXPIRE_MINUTES = 43200\<rparr>
       1700000000000000 (Subject_str ''alice'') (Some 315360000000000000)
     = Inl OverflowError"
  by (simp add: create_access_token_def datetime_add_def datetime_max_def Let_def)

text \<open>
  Claim C3, amended. An access token issued for a subject with a time to live \<open>life > 0\<close>
  at the clock reading \<open>issued_at\<close> (not before the epoch), where \<open>issued_at + life\<close> is
  still a \<open>datetime\<close>, and verified at any clock reading \<open>now\<close> before
  \<open>issued_at + life\<close>, yields a payload whose \<open>sub\<close> is the subject (the string
  \<open>str(subject)\<close> that the token carries) and whose \<open>type\<close> is \<open>"access"\<close>.
\<close>

theorem access_token_round_trip:
  assumes "0 < life" and "now < issued_at + life"
    and "0 \<le> issued_at" and "issued_at + life \<le> datetime_max"
  shows "\<exists>tok token_data.
           create_access_token hmac cfg issued_at subj (Some life) = Inr tok \<and>
           get_token_data hmac parse_datetime cfg tok now = Inr token_data \<and>
           sub token_data = PyStr (str_subject subj) \<and> type token_data = ''access''"
proof -
  have low: "datetime_min \<le> issued_at + life" using assms(1,3) by (simp add: datetime_min_def)
  have fresh: "timegm now \<le> timegm (issued_at + life)" using assms(2) by (intro timegm_mono) simp
  obtain x where x: "as_datetime parse_datetime (PyInt (timegm (issued_at + life))) = Some x"
    using as_datetime_issued [of "issued_at + life" parse_datetime] assms(1,3,4) by auto
  show ?thesis
    using assms(1,4) low fresh x by (simp add: create_access_token_given get_token_data_issued)
qed

theorem access_token_round_trip_witness:
  "(0::int) < 3600000000 \<and> (1700003599999999::int) < 1700000000250000 + 3600000000 \<and>
   (0::int) \<le> 1700000000250000 \<and> 1700000000250000 + 3600000000 \<le> datetime_max \<and>
   (\<exists>tok token_data.
      create_access_token (\<lambda>key msg. (key, msg))
          \<lparr>DEBUG = False, SECRET_KEY = ''s3cret'', ACCESS_TOKEN_EXPIRE_MINUTES = 11520,
           REFRESH_TOKEN_EXPIRE_MINUTES = 43200\<rparr>
          1700000000250000 (Subject_str ''alice'') (Some 3600000000) = Inr tok \<and>
      get_token_data (\<lambda>key msg. (key, msg)) (\<lambda>s. None)
          \<lparr>DEBUG = False, SECRET_KEY = ''s3cret'', ACCESS_TOKEN_EXPIRE_MINUTES = 11520,
           REFRESH_TOKEN_EXPIRE_MINUTES = 43200\<rparr>
          tok 1700003599999999 = Inr token_data \<and>
      sub token_data = PyStr (str_subject (Subject_str ''alice'')) \<and> type token_data = ''access'')"
  using access_token_round_trip
    [where life = 3600000000 and now = 1700003599999999 and issued_at = 1700000000250000
       and hmac = "\<lambda>key msg. (key, msg)"
       and cfg = "\<lparr>DEBUG = False, SECRET_KEY = ''s3cret'', ACCESS_TOKEN_EXPIRE_MINUTES = 11520,
           REFRESH_TOKEN_EXPIRE_MINUTES = 43200\<rparr>"
       and subj = "Subject_str ''alice''" and parse_datetime = "\<lambda>s. None"]
  by (simp add: datetime_max_def)




section \<open>Properties of the endpoints\<close>

text \<open>
  Both endpoints end in \<open>Token(...)\<close> without \<open>expires_in\<close>, a required field: whatever
  the tokens are, the constructor raises pydantic's validation error. So the step that
  builds the answer returns no token pair: it raises that error, or \<open>OverflowError\<close> when
  a configured time to live leads beyond the last \<open>datetime\<close>.
\<close>

lemma Token_without_expires_in:
  "Token (Some a) (Some r) ttype None = Inl (PydanticValidationError [''expires_in''])"
  by (simp add: Token_def missing_def)

lemma create_token_outcomes:
  "create_access_token hmac cfg t subj expires_delta = Inl OverflowError \<or>
   (\<exists>tok. create_access_token hmac cfg t subj expires_delta = Inr tok)"
  "create_refresh_token hmac cfg t subj expires_delta = Inl OverflowError \<or>
   (\<exists>tok. create_refresh_token hmac cfg t subj expires_delta = Inr tok)"
  by (auto simp: create_access_token_def create_refresh_token_def timedelta_minutes_def
      datetime_add_def Let_def jwt_encode_issued split: option.splits)

lemma new_token_pair_outcomes:
  "new_token_pair hmac cfg u t1 t2 = Inl OverflowError \<or>
   new_token_pair hmac cfg u t1 t2 = Inl (PydanticValidationError [''expires_in''])"
proof -
  have td: "timedelta_minutes m = Inl OverflowError \<or> (\<exists>d. timedelta_minutes m = Inr d)" for m
    by (simp add: timedelta_minutes_def)
  show ?thesis
    unfolding new_token_pair_def
    using td [of "ACCESS_TOKEN_EXPIRE_MINUTES cfg"] td [of "REFRESH_TOKEN_EXPIRE_MINUTES cfg"]
    apply (elim disjE exE)
       apply simp_all
    subgoal for da dr
      using create_token_outcomes(1) [of hmac cfg t1 "Subject_int (user_id u)" "Some da"]
        create_token_outcomes(2) [of hmac cfg t2 "Subject_int (user_id u)" "Some dr"]
      by (auto simp: Token_without_expires_in)
    done
qed

lemma new_token_pair_raises:
  assumes "0 \<le> ACCESS_TOKEN_EXPIRE_MINUTES cfg" and "0 \<le> REFRESH_TOKEN_EXPIRE_MINUTES cfg"
    and "0 \<le> t1" and "0 \<le> t2"
    and "t1 + ACCESS_TOKEN_EXPIRE_MINUTES cfg * 60000000 \<le> datetime_max"
    and "t2 + REFRESH_TOKEN_EXPIRE_MINUTES cfg * 60000000 \<le> datetime_max"
  shows "new_token_pair hmac cfg u t1 t2 = Inl (PydanticValidationError [''expires_in''])"
proof -
  have a: "timedelta_minutes (ACCESS_TOKEN_EXPIRE_MINUTES cfg) = Inr (ACCESS_TOKEN_EXPIRE_MINUTES cfg * 60000000)"
    using assms(1,3,5) by (simp add: timedelta_minutes_def datetime_max_def)
  have r: "timedelta_minutes (REFRESH_TOKEN_EXPIRE_MINUTES cfg) = Inr (REFRESH_TOKEN_EXPIRE_MINUTES cfg * 60000000)"
    using assms(2,4,6) by (simp add: timedelta_minutes_def datetime_max_def)
  have "\<exists>tok. create_access_token hmac cfg t1 (Subject_int (user_id u))
                 (Some (ACCESS_TOKEN_EXPIRE_MINUTES cfg * 60000000)) = Inr tok"
    using assms(1,3,5) a
    by (simp add: create_access_token_def datetime_add_def datetime_min_def Let_def jwt_encode_issued)
  moreover have "\<exists>tok. create_refresh_token hmac cfg t2 (Subject_int (user_id u))
                 (Some (REFRESH_TOKEN_EXPIRE_MINUTES cfg * 60000000)) = Inr tok"
    using assms(2,4,6) r
    by (simp add: create_refresh_token_def datetime_add_def datetime_min_def Let_def jwt_encode_issued)
  ultimately show ?thesis
    by (auto simp: new_token_pair_def a r Token_without_expires_in)
qed

lemma new_token_pair_never_returns: "new_token_pair hmac cfg u t1 t2 \<noteq> Inr tokens"
  using new_token_pair_outcomes [of hmac cfg u t1 t2] by auto

lemma login_never_returns:
  "login hmac verify_password cfg db form_username form_password t1 t2 \<noteq> Inr tokens"
  by (auto simp: login_def new_token_pair_never_returns split: sum.splits option.splits)

text \<open>
  Claim C5 fails for every login with correct credentials. The database holds the active
  user 7, \<open>alice@example.com\<close>, and the password given is hers: \<open>login\<close> builds both
  tokens and then raises the validation error for the missing \<open>expires_in\<close>; no token
  pair is returned. With a wrong password it raises the 401 of the claim.
\<close>

theorem login_correct_credentials_raises:
  "login hmac (\<lambda>plain hashed. hashed = ''hash of '' @ plain)
       \<lparr>DEBUG = False, SECRET_KEY = ''s3cret'', ACCESS_TOKEN_EXPIRE_MINUTES = 11520,
        REFRESH_TOKEN_EXPIRE_MINUTES = 43200\<rparr>
       \<lparr>db_get = (\<lambda>key. Inr None),
        db_select_email = (\<lambda>mail. if mail = ''alice@example.com''
           then [\<lparr>user_id = 7, email = ''alice@example.com'', username = ''alice'',
                  hashed_password = ''hash of correct horse'', is_active = True,
                  is_superuser = False\<rparr>]
           else [])\<rparr>
       ''alice@example.com'' ''correct horse'' 1700000000000000 1700000000000100
     = Inl (PydanticValidationError [''expires_in'']) \<and>
   login hmac (\<lambda>plain hashed. hashed = ''hash of '' @ plain)
       \<lparr>DEBUG = False, SECRET_KEY = ''s3cret'', ACCESS_TOKEN_EXPIRE_MINUTES = 11520,
        REFRESH_TOKEN_EXPIRE_MINUTES = 43200\<rparr>
       \<lparr>db_get = (\<lambda>key. Inr None),
        db_select_email = (\<lambda>mail. if mail = ''alice@example.com''
           then [\<lparr>user_id = 7, email = ''alice@example.com'', username = ''alice'',
                  hashed_password = ''hash of correct horse'', is_active = True,
                  is_superuser = False\<rparr>]
           else [])\<rparr>
       ''alice@example.com'' ''wrong'' 1700000000000000 1700000000000100
     = Inl (HTTPException 401 ''Incorrect email or password'' [(''WWW-Authenticate'', ''Bearer'')])"
  by (simp add: login_def authenticate_def new_token_pair_raises datetime_max_def)

text \<open>
  The tokens of the service carry \<open>exp\<close> and \<open>sub\<close> and nothing else, and the two
  constructors differ only in their default time to live.
\<close>

lemma issued_claims:
  "create_access_token hmac cfg t subj expires_delta = Inr tok \<Longrightarrow> map fst (payload tok) = [''exp'', ''sub'']"
  "create_refresh_token hmac cfg t subj expires_delta = Inr tok \<Longrightarrow> map fst (payload tok) = [''exp'', ''sub'']"
  by (auto simp: create_access_token_def create_refresh_token_def Let_def jwt_encode_issued
      split: sum.splits option.splits if_splits)

lemma access_refresh_indistinguishable:
  "d \<noteq> 0 \<Longrightarrow>
   create_access_token hmac cfg t subj (Some d) = create_refresh_token hmac cfg t subj (Some d)"
  by (simp add: create_access_token_def create_refresh_token_def Let_def)

text \<open>
  The refresh endpoint takes any token of the service that is validly signed and not
  expired, for an active user, up to the construction of the answer.
\<close>

lemma refresh_token_accepts:
  assumes "tok = JWT ''HS256'' [(''exp'', PyInt e), (''sub'', PyStr (str_int uid))]
                   (hmac (SECRET_KEY cfg) (''HS256'', [(''exp'', PyInt e), (''sub'', PyStr (str_int uid))]))"
    and "timegm t0 \<le> e" and "db_get db (PyInt uid) = Inr (Some u)" and "is_active u"
  shows "refresh_token hmac cfg db tok t0 t1 t2 = new_token_pair hmac cfg u t1 t2"
  using assms new_token_pair_outcomes [of hmac cfg u t1 t2]
  by (auto simp: refresh_token_def refresh_token_body_def jwt_decode_issued py_int_str_int)

text \<open>
  Claim C10 fails in its last part. The tokens carry only \<open>exp\<close> and \<open>sub\<close>, and an access
  token for user 7 equals the refresh token issued at the same time with the same time
  to live. Given that access token 100 seconds later, the refresh endpoint accepts it and
  finds the active user 7, but it issues no token pair: \<open>Token(...)\<close> lacks \<open>expires_in\<close>
  and the validation error is raised, as in \<open>login\<close>.
\<close>

theorem refresh_with_access_token_raises:
  "create_access_token hmac
       \<lparr>DEBUG = False, SECRET_KEY = ''s3cret'', ACCESS_TOKEN_EXPIRE_MINUTES = 11520,
        REFRESH_TOKEN_EXPIRE_MINUTES = 43200\<rparr>
       1700000000000000 (Subject_int 7) (Some 3600000000)
     = create_refresh_token hmac
       \<lparr>DEBUG = False, SECRET_KEY = ''s3cret'', ACCESS_TOKEN_EXPIRE_MINUTES = 11520,
        REFRESH_TOKEN_EXPIRE_MINUTES = 43200\<rparr>
       1700000000000000 (Subject_int 7) (Some 3600000000) \<and>
   (\<exists>tok. create_access_token hmac
       \<lparr>DEBUG = False, SECRET_KEY = ''s3cret'', ACCESS_TOKEN_EXPIRE_MINUTES = 11520,
        REFRESH_TOKEN_EXPIRE_MINUTES = 43200\<rparr>
       1700000000000000 (Subject_int 7) (Some 3600000000) = Inr tok \<and>
     map fst (payload tok) = [''exp'', ''sub''] \<and>
     refresh_token hmac
       \<lparr>DEBUG = False, SECRET_KEY = ''s3cret'', ACCESS_TOKEN_EXPIRE_MINUTES = 11520,
        REFRESH_TOKEN_EXPIRE_MINUTES = 43200\<rparr>
       \<lparr>db_get = (\<lambda>key. if key = PyInt 7
           then Inr (Some \<lparr>user_id = 7, email = ''alice@example.com'', username = ''alice'',
                  hashed_password = ''hash of correct horse'', is_active = True,
                  is_superuser = False\<rparr>)
           else Inr None),
        db_select_email = (\<lambda>mail. [])\<rparr>
       tok 1700000100000000 1700000100000100 1700000100000200
     = Inl (PydanticValidationError [''expires_in'']))"
  by (simp add: create_access_token_given create_refresh_token_given refresh_token_def
      refresh_token_body_def jwt_decode_issued py_int_str_int new_token_pair_raises timegm_def
      datetime_min_def datetime_max_def)

end
